theory Spec2Isabelle
  imports Complex_Main "HOL-Library.AList" "HOL-Library.Multiset"
begin

section \<open>JavaScript values used by index.js\<close>

text \<open>
  Numbers. A JavaScript number is a finite value, one of the two infinities, or NaN.
  Finite values are kept exact (as rationals): every number the bot computes with is an
  integer far below \<open>2^53\<close> (millisecond clocks, page numbers, counters), where double
  arithmetic is exact. Negative zero is not distinguished from zero; no comparison or
  subtraction in index.js tells them apart.
\<close>

datatype jsnum = Fin rat | PosInf | NegInf | NaN

fun js_neg :: "jsnum \<Rightarrow> jsnum" where
  "js_neg (Fin a) = Fin (- a)"
| "js_neg PosInf = NegInf"
| "js_neg NegInf = PosInf"
| "js_neg NaN = NaN"

text \<open>The binary \<open>-\<close> operator on numbers.\<close>

fun js_sub :: "jsnum \<Rightarrow> jsnum \<Rightarrow> jsnum" where
  "js_sub NaN y = NaN"
| "js_sub (Fin a) (Fin b) = Fin (a - b)"
| "js_sub (Fin a) PosInf = NegInf"
| "js_sub (Fin a) NegInf = PosInf"
| "js_sub (Fin a) NaN = NaN"
| "js_sub PosInf (Fin b) = PosInf"
| "js_sub PosInf PosInf = NaN"
| "js_sub PosInf NegInf = PosInf"
| "js_sub PosInf NaN = NaN"
| "js_sub NegInf (Fin b) = NegInf"
| "js_sub NegInf PosInf = NegInf"
| "js_sub NegInf NegInf = NaN"
| "js_sub NegInf NaN = NaN"

text \<open>The \<open>>\<close> operator on numbers: false as soon as one side is NaN.\<close>

fun js_gt :: "jsnum \<Rightarrow> jsnum \<Rightarrow> bool" where
  "js_gt NaN y = False"
| "js_gt (Fin a) (Fin b) = (b < a)"
| "js_gt (Fin a) PosInf = False"
| "js_gt (Fin a) NegInf = True"
| "js_gt (Fin a) NaN = False"
| "js_gt PosInf (Fin b) = True"
| "js_gt PosInf PosInf = False"
| "js_gt PosInf NegInf = True"
| "js_gt PosInf NaN = False"
| "js_gt NegInf y = False"

text \<open>
  Strings are lists of code units; the model covers code units below 256 (the identifiers
  and custom ids that Discord hands to the bot are ASCII).
\<close>

definition is_digit :: "char \<Rightarrow> bool" where
  "is_digit c = (48 \<le> (of_char c :: nat) \<and> (of_char c :: nat) \<le> 57)"

definition digit_val :: "char \<Rightarrow> nat" where
  "digit_val c = of_char c - 48"

definition dec_val :: "string \<Rightarrow> nat" where
  "dec_val ds = foldl (\<lambda>a c. 10 * a + digit_val c) 0 ds"

text \<open>White space and line terminators, as \<open>trim\<close>, \<open>Number\<close> and \<open>parseInt\<close> skip them.\<close>

definition js_ws :: "char \<Rightarrow> bool" where
  "js_ws c = ((of_char c :: nat) \<in> {9, 10, 11, 12, 13, 32, 160})"

definition trim :: "string \<Rightarrow> string" where
  "trim s = rev (dropWhile js_ws (rev (dropWhile js_ws s)))"

definition startsWith :: "string \<Rightarrow> string \<Rightarrow> bool" where
  "startsWith s p = (take (length p) s = p)"

text \<open>\<open>s.split(d)\<close> for a one-character separator: never empty, \<open>''.split(d)\<close> is \<open>['']\<close>.\<close>

fun js_split :: "char \<Rightarrow> string \<Rightarrow> string list" where
  "js_split d [] = [[]]"
| "js_split d (c # cs) =
     (if c = d then [] # js_split d cs
      else (case js_split d cs of [] \<Rightarrow> [[c]] | w # ws \<Rightarrow> (c # w) # ws))"

text \<open>Array destructuring: a position past the end of the array reads \<open>undefined\<close> (None).\<close>

definition nth_opt :: "'a list \<Rightarrow> nat \<Rightarrow> 'a option" where
  "nth_opt xs i = (if i < length xs then Some (xs ! i) else None)"

text \<open>
  \<open>Number(s)\<close> on a string, after the StringNumericLiteral grammar of ECMAScript: white
  space is trimmed; the empty string is 0; \<open>0x\<close>, \<open>0o\<close> and \<open>0b\<close> literals carry no sign;
  a decimal literal is an optional sign, then \<open>Infinity\<close> or digits with an optional
  fraction and exponent; anything else is NaN. The value is the exact value of the
  literal: JavaScript rounds it to the nearest double, which changes nothing for the
  integers below \<open>2^53\<close> that \<open>Date.now()\<close> and the page numbers are. For another
  literal the double differs from the value kept here: digits beyond \<open>2^53\<close> are rounded
  away, and \<open>1e1000\<close> is read as \<open>Infinity\<close>. Only the expiry test reads such a value, from
  a custom id that \<open>buildUserlistPage\<close> never issues.
\<close>

definition alnum_val :: "char \<Rightarrow> nat option" where
  "alnum_val c = (let k = (of_char c :: nat) in
     if 48 \<le> k \<and> k \<le> 57 then Some (k - 48)
     else if 97 \<le> k \<and> k \<le> 102 then Some (k - 87)
     else if 65 \<le> k \<and> k \<le> 70 then Some (k - 55)
     else None)"

definition radix_val :: "nat \<Rightarrow> string \<Rightarrow> nat option" where
  "radix_val r ds =
     (if ds \<noteq> [] \<and> list_all (\<lambda>c. case alnum_val c of None \<Rightarrow> False | Some v \<Rightarrow> v < r) ds
      then Some (foldl (\<lambda>a c. r * a + (case alnum_val c of None \<Rightarrow> 0 | Some v \<Rightarrow> v)) 0 ds)
      else None)"

definition non_decimal_literal :: "string \<Rightarrow> nat option" where
  "non_decimal_literal s = (case s of
       c0 # c1 # ds \<Rightarrow>
         if c0 \<noteq> CHR ''0'' then None
         else if c1 = CHR ''x'' \<or> c1 = CHR ''X'' then radix_val 16 ds
         else if c1 = CHR ''o'' \<or> c1 = CHR ''O'' then radix_val 8 ds
         else if c1 = CHR ''b'' \<or> c1 = CHR ''B'' then radix_val 2 ds
         else None
     | _ \<Rightarrow> None)"

definition signed_integer :: "string \<Rightarrow> int option" where
  "signed_integer s = (case s of
       [] \<Rightarrow> None
     | c # r \<Rightarrow>
         if c = CHR ''-'' then
           (if r \<noteq> [] \<and> list_all is_digit r then Some (- int (dec_val r)) else None)
         else if c = CHR ''+'' then
           (if r \<noteq> [] \<and> list_all is_digit r then Some (int (dec_val r)) else None)
         else if list_all is_digit s then Some (int (dec_val s)) else None)"

definition exponent_part :: "string \<Rightarrow> int option" where
  "exponent_part s = (case s of
       [] \<Rightarrow> Some 0
     | c # r \<Rightarrow> if c = CHR ''e'' \<or> c = CHR ''E'' then signed_integer r else None)"

definition pow10 :: "int \<Rightarrow> rat" where
  "pow10 e = (if 0 \<le> e then 10 ^ nat e else 1 / 10 ^ nat (- e))"

definition str_unsigned_decimal :: "string \<Rightarrow> jsnum" where
  "str_unsigned_decimal s =
     (if s = ''Infinity'' then PosInf
      else
        let ip = takeWhile is_digit s;
            r1 = dropWhile is_digit s;
            fp = (case r1 of [] \<Rightarrow> [] | c # t \<Rightarrow> if c = CHR ''.'' then takeWhile is_digit t else []);
            r2 = (case r1 of [] \<Rightarrow> [] | c # t \<Rightarrow> if c = CHR ''.'' then dropWhile is_digit t else r1)
        in if ip = [] \<and> fp = [] then NaN
           else (case exponent_part r2 of
                   None \<Rightarrow> NaN
                 | Some e \<Rightarrow>
                     Fin ((of_nat (dec_val ip) + of_nat (dec_val fp) / 10 ^ length fp) * pow10 e)))"

definition StringToNumber :: "string \<Rightarrow> jsnum" where
  "StringToNumber s =
     (let t = trim s in
      case t of
        [] \<Rightarrow> Fin 0
      | c # r \<Rightarrow>
          (case non_decimal_literal t of
             Some v \<Rightarrow> Fin (of_nat v)
           | None \<Rightarrow>
               if c = CHR ''+'' then str_unsigned_decimal r
               else if c = CHR ''-'' then js_neg (str_unsigned_decimal r)
               else str_unsigned_decimal t))"

text \<open>
  \<open>parseInt(x, 10)\<close>: \<open>undefined\<close> is first turned into the string \<open>undefined\<close>; leading
  white space and one sign are skipped, then the longest run of decimal digits is read.
  The result is an integer, or NaN (None) when there is no digit.
\<close>

definition parseInt10 :: "string option \<Rightarrow> int option" where
  "parseInt10 x =
     (let inputString = (case x of None \<Rightarrow> ''undefined'' | Some s \<Rightarrow> s);
          S = dropWhile js_ws inputString;
          neg = (case S of [] \<Rightarrow> False | c # r \<Rightarrow> c = CHR ''-'');
          S1 = (case S of [] \<Rightarrow> [] | c # r \<Rightarrow> if c = CHR ''-'' \<or> c = CHR ''+'' then r else S);
          Z = takeWhile is_digit S1
      in if Z = [] then None
         else Some (if neg then - int (dec_val Z) else int (dec_val Z)))"

text \<open>
  An integer inside a template literal: its decimal digits, with a minus sign when
  negative (the form \<open>Number.prototype.toString\<close> gives below \<open>10^21\<close>).
\<close>

definition digit_char :: "nat \<Rightarrow> char" where
  "digit_char n = char_of (48 + n)"

function show_nat :: "nat \<Rightarrow> string" where
  "show_nat n = (if n < 10 then [digit_char n] else show_nat (n div 10) @ [digit_char (n mod 10)])"
  by pat_completeness auto
termination
  by (relation "measure id") auto

declare show_nat.simps [simp del]

definition show_int :: "int \<Rightarrow> string" where
  "show_int i = (if i < 0 then CHR ''-'' # show_nat (nat (- i)) else show_nat (nat i))"

text \<open>Truthiness of a string-valued property that may be absent or null.\<close>

definition truthy :: "string option \<Rightarrow> bool" where
  "truthy v = (case v of None \<Rightarrow> False | Some s \<Rightarrow> s \<noteq> [])"

text \<open>\<open>v || d\<close> for such a property and a string default.\<close>

definition or_else :: "string option \<Rightarrow> string \<Rightarrow> string" where
  "or_else v d = (case v of None \<Rightarrow> d | Some s \<Rightarrow> if s = [] then d else s)"

section \<open>The identity store\<close>

text \<open>
  A record of users.json. Every property is a string, or absent or null (None). The store
  is the parsed object, as the list of its entries in the order of \<open>Object.entries\<close> and
  \<open>Object.values\<close>; the keys of an object are distinct, and the theorems that need it say
  so. \<open>delete users[k]\<close> is \<open>AList.delete\<close>; an assignment to \<open>users[k]\<close> is
  \<open>AList.update\<close>, which replaces the value of a key in place and appends a new key. The
  keys are Discord user ids, numerals of 17 to 20 digits: none is an array index, which
  JavaScript would list first and in numeric order.
\<close>

record user =
  user_id :: "string option"
  username :: "string option"
  verifiedAt :: "string option"
  ip :: "string option"
  avatar :: "string option"
  access_token :: "string option"
  refresh_token :: "string option"

type_synonym store = "(string \<times> user) list"

text \<open>
  The process state: the module variable \<open>users\<close>, the content of USERS_FILE, and the
  contents passed to \<open>saveJson(USERS_FILE, _)\<close> so far, oldest first. File-system
  failures are not modelled: \<open>loadJson\<close> returns the content, \<open>saveJson\<close> replaces it.
\<close>

record bot_state =
  users :: store
  users_file :: store
  saves :: "store list"

definition loadJson :: "bot_state \<Rightarrow> store" where
  "loadJson st = users_file st"

definition saveJson :: "store \<Rightarrow> bot_state \<Rightarrow> bot_state" where
  "saveJson data st = st\<lparr>users_file := data, saves := saves st @ [data]\<rparr>"

definition PAGE_SIZE :: nat where
  "PAGE_SIZE = 20"

definition BUTTON_TTL :: int where
  "BUTTON_TTL = 2 * 60 * 1000"

definition formatUserDisplay :: "user \<Rightarrow> string" where
  "formatUserDisplay userData =
     (case username userData of
        None \<Rightarrow> ''UnknownUser''
      | Some n \<Rightarrow> if 0 < length n then n else ''UnknownUser'')"

section \<open>The paginated listing\<close>

text \<open>
  What \<open>buildUserlistPage\<close> returns: the page shown and the page count (\<open>meta\<close>), the
  footer's total, one entry (name, id, ip) per line of the embed, and the two buttons
  with their custom ids and disabled flags.
\<close>

record page_view =
  pv_page :: int
  pv_pages :: int
  pv_total :: nat
  pv_lines :: "(string \<times> string \<times> string) list"
  pv_prev_id :: string
  pv_prev_disabled :: bool
  pv_next_id :: string
  pv_next_disabled :: bool
  pv_timestamp :: int

definition page_count :: "nat \<Rightarrow> int" where
  "page_count n = max 1 \<lceil>rat_of_nat n / rat_of_nat PAGE_SIZE\<rceil>"

definition clamp_page :: "int \<Rightarrow> int \<Rightarrow> int" where
  "clamp_page page pages = min (max 1 page) pages"

definition customId :: "string \<Rightarrow> int \<Rightarrow> string \<Rightarrow> int \<Rightarrow> string" where
  "customId action page invokerId timestamp =
     action @ '':'' @ show_int page @ '':'' @ invokerId @ '':'' @ show_int timestamp"

text \<open>
  The values \<open>buildUserlistPage\<close> computes and hands to the builders of discord.js:
  the page count, the clamped page, the lines of the slice, the custom ids of the two
  buttons.
\<close>

definition page_fields :: "store \<Rightarrow> int \<Rightarrow> string \<Rightarrow> int \<Rightarrow> page_view" where
  "page_fields usersObj page0 invokerId now =
     (let all = map snd usersObj;
          totalN = length all;
          pages = page_count totalN;
          page = clamp_page page0 pages;
          start = (page - 1) * int PAGE_SIZE;
          slice = take PAGE_SIZE (drop (nat start) all);
          lines = map (\<lambda>u. (formatUserDisplay u,
                              or_else (user_id u) ''UnknownID'',
                              or_else (ip u) ''Unknown'')) slice;
          timestamp = now
      in \<lparr>pv_page = page, pv_pages = pages, pv_total = totalN, pv_lines = lines,
          pv_prev_id = customId ''userlist_prev'' (page - 1) invokerId timestamp,
          pv_prev_disabled = (page \<le> 1),
          pv_next_id = customId ''userlist_next'' (page + 1) invokerId timestamp,
          pv_next_disabled = (pages \<le> page),
          pv_timestamp = timestamp\<rparr>)"

text \<open>
  \<open>EmbedBuilder\<close> and \<open>ButtonBuilder\<close> validate what they are given and throw on a value
  Discord would refuse. They are outside the program, so the validation is a parameter:
  \<open>accepts\<close> says of the content of a page whether every builder takes it.
  \<open>buildUserlistPage\<close> has no \<open>try\<close>: when a builder throws, so does it.
\<close>

datatype render_error = BuilderThrew

definition buildUserlistPage ::
  "(page_view \<Rightarrow> bool) \<Rightarrow> store \<Rightarrow> int \<Rightarrow> string \<Rightarrow> int \<Rightarrow> render_error + page_view" where
  "buildUserlistPage accepts usersObj page0 invokerId now =
     (let pv = page_fields usersObj page0 invokerId now
      in if accepts pv then Inr pv else Inl BuilderThrew)"

text \<open>
  The limit of discord.js that a page of the listing can break: the description of an
  embed has at most 4096 code units. The description is the lines joined by a line feed,
  or \<open>No users on this page.\<close> (22 code units) when there is none; the line of one
  record is the template \<open>* **name** | ID: `id` | IP: `ip`\<close>, 24 code units beside the
  three values (the bullet is one code unit). The limits on the title (256), the footer
  (2048) and a custom id (100) are far from what a page number, a record count, a user
  id and a clock value can reach, and are left to \<open>accepts\<close>.
\<close>

definition line_length :: "string \<times> string \<times> string \<Rightarrow> nat" where
  "line_length l = (case l of (name, uid, ipa) \<Rightarrow> 24 + length name + length uid + length ipa)"

definition description_length :: "(string \<times> string \<times> string) list \<Rightarrow> nat" where
  "description_length ls =
     (if ls = [] then 22 else sum_list (map line_length ls) + (length ls - 1))"

definition discord_limits :: "page_view \<Rightarrow> bool" where
  "discord_limits pv = (description_length (pv_lines pv) \<le> 4096)"

section \<open>Redeeming a pagination button\<close>

text \<open>The fields read out of a custom id by \<open>customId.split(':')\<close>.\<close>

definition token_prefix :: "string \<Rightarrow> string option" where
  "token_prefix cid = nth_opt (js_split CHR '':'' cid) 0"

definition token_pageStr :: "string \<Rightarrow> string option" where
  "token_pageStr cid = nth_opt (js_split CHR '':'' cid) 1"

definition token_invokerId :: "string \<Rightarrow> string option" where
  "token_invokerId cid = nth_opt (js_split CHR '':'' cid) 2"

definition token_createdAtStr :: "string \<Rightarrow> string option" where
  "token_createdAtStr cid = nth_opt (js_split CHR '':'' cid) 3"

text \<open>\<open>Number(createdAtStr || 0)\<close>: an absent or empty field is the number 0.\<close>

definition token_createdAt :: "string \<Rightarrow> jsnum" where
  "token_createdAt cid =
     (case token_createdAtStr cid of
        None \<Rightarrow> Fin 0
      | Some s \<Rightarrow> if s = [] then Fin 0 else StringToNumber s)"

text \<open>\<open>parseInt(pageStr, 10)\<close>, replaced by 1 when it is NaN or below 1.\<close>

definition token_targetPage :: "string \<Rightarrow> int" where
  "token_targetPage cid =
     (case parseInt10 (token_pageStr cid) of
        None \<Rightarrow> 1
      | Some p \<Rightarrow> if p < 1 then 1 else p)"

definition is_userlist :: "string option \<Rightarrow> bool" where
  "is_userlist prefix = (case prefix of None \<Rightarrow> False | Some p \<Rightarrow> startsWith p ''userlist'')"

definition expired :: "int \<Rightarrow> jsnum \<Rightarrow> bool" where
  "expired now createdAt = js_gt (js_sub (Fin (of_int now)) createdAt) (Fin (of_int BUTTON_TTL))"

text \<open>
  The outcomes of the button branch of the interaction handler: the custom id is not a
  listing button (plain return), the expiry message with the buttons stripped, the
  refusal sent to anyone but the invoker, the updated page, or the reply
  \<open>An error occurred.\<close> of the handler's \<open>catch\<close> when building the page threw.
\<close>

datatype response = Ignored | Expired | Forbidden | PageView page_view | ErrorReply

text \<open>
  \<open>button_handler accepts cid userId now now2 st\<close>: the button with custom id \<open>cid\<close> is
  pressed by \<open>userId\<close>; \<open>now\<close> is \<open>Date.now()\<close> at the expiry test and \<open>now2\<close> at the
  rebuild of the page. An invoker field that is missing is \<open>undefined\<close>, which differs
  from every user id. The store is reloaded into \<open>users\<close> before the page is built, so
  the error reply leaves \<open>users\<close> reloaded too.
\<close>

definition button_handler ::
  "(page_view \<Rightarrow> bool) \<Rightarrow> string \<Rightarrow> string \<Rightarrow> int \<Rightarrow> int \<Rightarrow> bot_state
     \<Rightarrow> response \<times> bot_state" where
  "button_handler accepts cid userId now now2 st =
     (let prefix = token_prefix cid;
          invokerId = token_invokerId cid;
          createdAt = token_createdAt cid
      in if \<not> is_userlist prefix then (Ignored, st)
         else if expired now createdAt then (Expired, st)
         else
           (case invokerId of
              None \<Rightarrow> (Forbidden, st)
            | Some invoker \<Rightarrow>
                if userId \<noteq> invoker then (Forbidden, st)
                else
                  let targetPage = token_targetPage cid;
                      st1 = st\<lparr>users := loadJson st\<rparr>
                  in (case buildUserlistPage accepts (users st1) targetPage invoker now2 of
                        Inr pv \<Rightarrow> (PageView pv, st1)
                      | Inl err \<Rightarrow> (ErrorReply, st1))))"

section \<open>The credential refresher\<close>

text \<open>
  The body of a response of the token endpoint, as \<open>tokenRes.json()\<close> gives it: the
  call throws (network failure, or a body that is not JSON); the body is null; or it is
  an object whose properties may be absent. A body that is a number, a string or a
  boolean has no properties and is covered by an object with every property absent, or
  by null when it is falsy: the code treats them alike.
\<close>

record token_data =
  td_token_type :: "string option"
  td_access_token :: "string option"
  td_refresh_token :: "string option"

datatype token_response = FetchThrew | JsonNull | JsonObj token_data

text \<open>
  The token endpoint is outside the program: it is a parameter, a function from the state
  of the outside world and the refresh token sent to the response and the next state of
  the world. The calls of one pass are made one after the other.
\<close>

type_synonym 'w refresh_api = "'w \<Rightarrow> string \<Rightarrow> token_response \<times> 'w"

datatype log_event =
    RefreshStart
  | NoUsers
  | DeleteNoToken string
  | DeleteRefreshFailed string
  | DeleteRefreshError string
  | RefreshComplete nat nat

text \<open>
  The pass awaits every refresh call, and while it waits the event loop runs the handlers
  of whatever arrives: a button, a command, a callback. \<open>users\<close> is a variable of the
  module, which those handlers reassign (\<open>users = loadJson(USERS_FILE)\<close>, line 296 and
  ten others) and save. What they do during one \<open>await\<close> is a parameter: from the world
  after the call and the process state when the pass went to sleep, to the process state
  when it resumes. The two awaits of an iteration (\<open>fetch\<close> and \<open>tokenRes.json()\<close>) count
  as one: nothing of the pass runs between them.
\<close>

type_synonym 'w interleaving = "'w \<Rightarrow> bot_state \<Rightarrow> bot_state"

text \<open>No handler runs while the pass waits.\<close>

definition no_handler :: "'w interleaving" where
  "no_handler w st = st"

text \<open>A handler that reloads the store runs, such as the button branch does at line 296.\<close>

definition reload_handler :: "'w interleaving" where
  "reload_handler w st = st\<lparr>users := loadJson st\<rparr>"

text \<open>
  The variables of the loop: the process state with the module variable \<open>users\<close>, the two
  counters, the world, the console.
\<close>

record 'w refresh_loop =
  rl_state :: bot_state
  rl_refreshed :: nat
  rl_deleted :: nat
  rl_world :: 'w
  rl_log :: "log_event list"

text \<open>\<open>delete users[userId]; deleted++\<close>, after the log line of the branch.\<close>

definition evict :: "log_event \<Rightarrow> string \<Rightarrow> 'w refresh_loop \<Rightarrow> 'w refresh_loop" where
  "evict ev userId st =
     st\<lparr>rl_state := (rl_state st)\<lparr>users := AList.delete userId (users (rl_state st))\<rparr>,
        rl_deleted := rl_deleted st + 1,
        rl_log := rl_log st @ [ev]\<rparr>"

text \<open>The loop when it resumes after an \<open>await\<close>.\<close>

definition resume :: "'w interleaving \<Rightarrow> 'w \<Rightarrow> 'w refresh_loop \<Rightarrow> 'w refresh_loop" where
  "resume others w st = st\<lparr>rl_world := w, rl_state := others w (rl_state st)\<rparr>"

text \<open>
  The three assignments of a successful refresh, on the record \<open>u\<close> found at
  \<open>users[userId]\<close>: the access token is replaced; the refresh token is replaced when the
  response brings one; a record left without one gets that of \<open>userData\<close>.
\<close>

definition rotate_tokens :: "user \<Rightarrow> user \<Rightarrow> token_data \<Rightarrow> user" where
  "rotate_tokens u userData tokenData =
     (let u1 = u\<lparr>access_token := td_access_token tokenData\<rparr>;
          u2 = (if truthy (td_refresh_token tokenData)
                then u1\<lparr>refresh_token := td_refresh_token tokenData\<rparr>
                else u1)
      in if \<not> truthy (refresh_token u2)
         then u2\<lparr>refresh_token := refresh_token userData\<rparr>
         else u2)"

text \<open>
  One iteration of \<open>for (const [userId, userData] of entries)\<close>. \<open>userData\<close> is the record
  of the snapshot taken before the loop. After the \<open>await\<close>, \<open>users[userId]\<close> is read from
  whatever \<open>users\<close> is by then: when the key is gone the assignment to its property throws
  a TypeError, which the \<open>catch\<close> turns into an eviction.
\<close>

definition refresh_entry ::
  "'w refresh_api \<Rightarrow> 'w interleaving \<Rightarrow> string \<times> user \<Rightarrow> 'w refresh_loop \<Rightarrow> 'w refresh_loop" where
  "refresh_entry api others e st =
     (let userId = fst e; userData = snd e in
      if \<not> truthy (refresh_token userData) then evict (DeleteNoToken userId) userId st
      else
        (case api (rl_world st) (or_else (refresh_token userData) []) of
           (resp, w) \<Rightarrow>
             let st1 = resume others w st in
             (case resp of
                FetchThrew \<Rightarrow> evict (DeleteRefreshError userId) userId st1
              | JsonNull \<Rightarrow> evict (DeleteRefreshFailed userId) userId st1
              | JsonObj tokenData \<Rightarrow>
                  if \<not> truthy (td_access_token tokenData)
                  then evict (DeleteRefreshFailed userId) userId st1
                  else
                    (case map_of (users (rl_state st1)) userId of
                       None \<Rightarrow> evict (DeleteRefreshError userId) userId st1
                     | Some u \<Rightarrow>
                         st1\<lparr>rl_state := (rl_state st1)
                                \<lparr>users := AList.update userId
                                            (rotate_tokens u userData tokenData)
                                            (users (rl_state st1))\<rparr>,
                             rl_refreshed := rl_refreshed st1 + 1\<rparr>))))"

fun refresh_entries ::
  "'w refresh_api \<Rightarrow> 'w interleaving \<Rightarrow> (string \<times> user) list \<Rightarrow> 'w refresh_loop
     \<Rightarrow> 'w refresh_loop" where
  "refresh_entries api others [] st = st"
| "refresh_entries api others (e # es) st =
     refresh_entries api others es (refresh_entry api others e st)"

text \<open>
  \<open>refreshAllTokens\<close>: the state of the process after the pass, the world after its calls,
  and the lines written to the console. The store saved at the end is the module variable
  \<open>users\<close> as it is then.
\<close>

definition refreshAllTokens ::
  "'w refresh_api \<Rightarrow> 'w interleaving \<Rightarrow> 'w \<Rightarrow> bot_state
     \<Rightarrow> bot_state \<times> 'w \<times> log_event list" where
  "refreshAllTokens api others w st =
     (let st1 = st\<lparr>users := loadJson st\<rparr>;
          entries = users st1
      in if length entries = 0 then (st1, w, [RefreshStart, NoUsers])
         else
           let l = refresh_entries api others entries
                     \<lparr>rl_state = st1, rl_refreshed = 0, rl_deleted = 0,
                      rl_world = w, rl_log = [RefreshStart]\<rparr>;
               st2 = saveJson (users (rl_state l)) (rl_state l)
           in (st2, rl_world l,
               rl_log l @ [RefreshComplete (rl_refreshed l) (rl_deleted l)]))"

text \<open>
  The counts a pass reports: those of its last console line, \<open>Token refresh complete: r
  refreshed, d deleted\<close>; none when the pass ends on another line.
\<close>

definition reported_counts :: "log_event list \<Rightarrow> (nat \<times> nat) option" where
  "reported_counts lg =
     (if lg = [] then None
      else (case last lg of RefreshComplete r d \<Rightarrow> Some (r, d) | _ \<Rightarrow> None))"

text \<open>
  The refresher as section 4.2 of the specification words it, for comparison with the
  loop above. One record and the response to its refresh call: evicted (None) when the
  call failed or brought no access token, else the record with the new access token, and
  with the new refresh token only when the response supplies one.
\<close>

definition spec_refresh_record :: "user \<Rightarrow> token_response \<Rightarrow> user option" where
  "spec_refresh_record u resp =
     (case resp of
        FetchThrew \<Rightarrow> None
      | JsonNull \<Rightarrow> None
      | JsonObj td \<Rightarrow>
          if truthy (td_access_token td)
          then Some (u\<lparr>access_token := td_access_token td,
                       refresh_token := (if truthy (td_refresh_token td)
                                         then td_refresh_token td else refresh_token u)\<rparr>)
          else None)"

text \<open>
  The store a pass leaves when it runs alone, record by record: a record without a
  refresh token is dropped without a call; the others are refreshed in order and kept or
  dropped by the response.
\<close>

fun spec_pass :: "'w refresh_api \<Rightarrow> 'w \<Rightarrow> store \<Rightarrow> store" where
  "spec_pass api w [] = []"
| "spec_pass api w (e # es) =
     (if \<not> truthy (refresh_token (snd e)) then spec_pass api w es
      else
        (case api w (or_else (refresh_token (snd e)) []) of
           (resp, w1) \<Rightarrow>
             (case spec_refresh_record (snd e) resp of
                None \<Rightarrow> spec_pass api w1 es
              | Some u1 \<Rightarrow> (fst e, u1) # spec_pass api w1 es)))"

section \<open>The batch dispatcher of /addall\<close>

























section \<open>The OAuth callback\<close>

text \<open>The body of the response of \<open>/users/@me\<close>, read like the token response.\<close>

record user_json =
  uj_id :: "string option"
  uj_global_name :: "string option"
  uj_username :: "string option"
  uj_user_username :: "string option"
  uj_discriminator :: "string option"
  uj_avatar :: "string option"

datatype user_response = UserThrew | UserNull | UserObj user_json

type_synonym 'w exchange_api = "'w \<Rightarrow> string \<Rightarrow> token_response \<times> 'w"

type_synonym 'w user_api = "'w \<Rightarrow> string \<Rightarrow> user_response \<times> 'w"

datatype callback_body = MissingCode | NoAccessToken | InternalError | SuccessPage string

record http_response =
  status :: nat
  body :: callback_body

text \<open>A string-valued property inside a template literal.\<close>

definition template :: "string option \<Rightarrow> string" where
  "template v = (case v of None \<Rightarrow> ''undefined'' | Some s \<Rightarrow> s)"

text \<open>\<open>a || b\<close> where both may be absent.\<close>

definition or_opt :: "string option \<Rightarrow> string option \<Rightarrow> string option" where
  "or_opt a b = (if truthy a then a else b)"

definition fullUsername :: "user_json \<Rightarrow> string" where
  "fullUsername userData =
     (let maybeName = trim (or_else (or_opt (uj_global_name userData)
                                      (or_opt (uj_username userData) (uj_user_username userData)))
                              []);
          discriminator = (case uj_discriminator userData of
                             None \<Rightarrow> []
                           | Some d \<Rightarrow> if d \<noteq> [] \<and> d \<noteq> ''0'' then CHR ''#'' # d else [])
      in (if maybeName = [] then ''UnknownUser'' else maybeName) @ discriminator)"

text \<open>
  \<open>callback exchange me code xff remote isoNow w st\<close>: the handler of \<open>GET /callback\<close>.
  \<open>code\<close> is \<open>req.query.code\<close>, \<open>xff\<close> and \<open>remote\<close> the forwarded-for header and the
  socket address, \<open>isoNow\<close> the date written as \<open>verifiedAt\<close>. After the store is saved the
  handler tries to assign the role and to post a log line, catching every failure; these
  steps touch neither the store nor the answer and are left out.
\<close>

definition callback ::
  "'w exchange_api \<Rightarrow> 'w user_api \<Rightarrow> string option \<Rightarrow> string option \<Rightarrow> string option
     \<Rightarrow> string \<Rightarrow> 'w \<Rightarrow> bot_state \<Rightarrow> http_response \<times> bot_state \<times> 'w" where
  "callback exchange me code xff remote isoNow w st =
     (let ipAddr = or_else xff (or_else remote ''Unknown'') in
      if \<not> truthy code then (\<lparr>status = 400, body = MissingCode\<rparr>, st, w)
      else
        (case exchange w (or_else code []) of
           (FetchThrew, w1) \<Rightarrow> (\<lparr>status = 500, body = InternalError\<rparr>, st, w1)
         | (JsonNull, w1) \<Rightarrow> (\<lparr>status = 500, body = NoAccessToken\<rparr>, st, w1)
         | (JsonObj tokenData, w1) \<Rightarrow>
             if \<not> truthy (td_access_token tokenData)
             then (\<lparr>status = 500, body = NoAccessToken\<rparr>, st, w1)
             else
               (case me w1 (template (td_token_type tokenData) @ '' ''
                              @ template (td_access_token tokenData)) of
                  (UserThrew, w2) \<Rightarrow> (\<lparr>status = 500, body = InternalError\<rparr>, st, w2)
                | (UserNull, w2) \<Rightarrow> (\<lparr>status = 500, body = InternalError\<rparr>, st, w2)
                | (UserObj userData, w2) \<Rightarrow>
                    let st1 = st\<lparr>users := loadJson st\<rparr>;
                        entry = \<lparr>user_id = uj_id userData,
                                 username = Some (fullUsername userData),
                                 verifiedAt = Some isoNow,
                                 ip = Some ipAddr,
                                 avatar = (if truthy (uj_avatar userData)
                                           then uj_avatar userData else None),
                                 access_token = td_access_token tokenData,
                                 refresh_token = (if truthy (td_refresh_token tokenData)
                                                  then td_refresh_token tokenData else None)\<rparr>;
                        users1 = AList.update (template (uj_id userData)) entry (users st1);
                        st2 = saveJson users1 (st1\<lparr>users := users1\<rparr>)
                    in (\<lparr>status = 200, body = SuccessPage (fullUsername userData)\<rparr>, st2, w2))))"

section \<open>Concrete inputs\<close>

text \<open>The inputs at which the theorems below are instantiated.\<close>

definition example_id_ann :: string where
  "example_id_ann = ''100000000000000007''"

definition example_id_bob :: string where
  "example_id_bob = ''100000000000000008''"

definition example_user :: user where
  "example_user =
     \<lparr>user_id = Some example_id_ann, username = Some ''ann'',
      verifiedAt = Some ''2025-01-01'', ip = Some ''10.0.0.1'', avatar = None,
      access_token = Some ''at'', refresh_token = Some ''rt''\<rparr>"

definition example_user_no_refresh :: user where
  "example_user_no_refresh =
     \<lparr>user_id = Some example_id_bob, username = Some ''bob'',
      verifiedAt = Some ''2025-01-02'', ip = Some ''10.0.0.2'', avatar = None,
      access_token = Some ''at'', refresh_token = None\<rparr>"

definition example_store :: store where
  "example_store = [(example_id_ann, example_user), (example_id_bob, example_user_no_refresh)]"


text \<open>
  A store of 20 records whose \<open>ip\<close> is 200 characters long. The callback stores the
  \<open>x-forwarded-for\<close> header of the request as it comes, whatever its length.
\<close>

definition example_long_ip :: string where
  "example_long_ip = replicate 200 CHR ''1''"

definition example_long_store :: store where
  "example_long_store =
     map (\<lambda>i. (show_nat (100000000000000000 + i),
               example_user\<lparr>user_id := Some (show_nat (100000000000000000 + i)),
                            ip := Some example_long_ip\<rparr>))
       [0..<20]"

definition empty_state :: bot_state where
  "empty_state = \<lparr>users = [], users_file = [], saves = []\<rparr>"

definition example_state :: bot_state where
  "example_state = \<lparr>users = [], users_file = example_store, saves = []\<rparr>"

text \<open>The store with the record that has no refresh token in front.\<close>

definition example_racing_state :: bot_state where
  "example_racing_state =
     \<lparr>users = [],
      users_file = [(example_id_bob, example_user_no_refresh), (example_id_ann, example_user)],
      saves = []\<rparr>"

definition example_long_state :: bot_state where
  "example_long_state = \<lparr>users = [], users_file = example_long_store, saves = []\<rparr>"

text \<open>
  Two user ids, the button \<open>Next\<close> of the first page of the listing that the first user
  asked for at \<open>Date.now() = 1700000000000\<close>, and four custom ids that
  \<open>buildUserlistPage\<close> does not issue: a page field that is no number, no timestamp
  field, a timestamp field that is no number, and the button of another feature.
\<close>

definition example_invoker :: string where
  "example_invoker = ''314159265358979323''"

definition example_other :: string where
  "example_other = ''271828182845904523''"

definition example_button :: string where
  "example_button =
     pv_next_id (page_fields example_store 1 example_invoker 1700000000000)"

definition example_badpage_button :: string where
  "example_badpage_button = ''userlist_next:abc:314159265358979323:1700000000000''"

definition example_short_button :: string where
  "example_short_button = ''userlist_next:2:314159265358979323''"

definition example_nan_button :: string where
  "example_nan_button = ''userlist_next:2:314159265358979323:abc''"

definition example_foreign_button :: string where
  "example_foreign_button = ''vote:1''"

text \<open>A token endpoint that always answers with a new access token and no refresh token.\<close>

definition example_refresh_api :: "unit refresh_api" where
  "example_refresh_api w rt =
     (JsonObj \<lparr>td_token_type = Some ''Bearer'', td_access_token = Some ''at2'',
               td_refresh_token = None\<rparr>, w)"

text \<open>A token endpoint that rejects every authorization code.\<close>

definition example_exchange_rejects :: "unit exchange_api" where
  "example_exchange_rejects w c =
     (JsonObj \<lparr>td_token_type = None, td_access_token = None, td_refresh_token = None\<rparr>, w)"

definition example_me :: "unit user_api" where
  "example_me w auth = (UserNull, w)"



section \<open>Decimal numerals and the custom id\<close>

lemma digit_char_is_digit: "k < 10 \<Longrightarrow> is_digit (digit_char k)"
  by (simp add: is_digit_def digit_char_def)

lemma digit_val_digit_char: "k < 10 \<Longrightarrow> digit_val (digit_char k) = k"
  by (simp add: digit_val_def digit_char_def)

lemma show_nat_digits: "list_all is_digit (show_nat n)"
proof (induction n rule: show_nat.induct)
  case (1 n)
  show ?case
  proof (cases "n < 10")
    case True
    then show ?thesis by (subst show_nat.simps) (simp add: digit_char_is_digit)
  next
    case False
    then show ?thesis using 1 by (subst show_nat.simps) (simp add: digit_char_is_digit)
  qed
qed

lemma show_nat_nonempty: "show_nat n \<noteq> []"
  by (subst show_nat.simps) simp


lemma dec_val_snoc: "dec_val (ds @ [c]) = 10 * dec_val ds + digit_val c"
  by (simp add: dec_val_def)

lemma dec_val_show_nat: "dec_val (show_nat n) = n"
proof (induction n rule: show_nat.induct)
  case (1 n)
  show ?case
  proof (cases "n < 10")
    case True
    then show ?thesis by (subst show_nat.simps) (simp add: dec_val_def digit_val_digit_char)
  next
    case False
    then show ?thesis using 1
      by (subst show_nat.simps) (simp add: dec_val_snoc digit_val_digit_char)
  qed
qed

lemma is_digit_not_ws: "is_digit c \<Longrightarrow> \<not> js_ws c"
  by (auto simp: is_digit_def js_ws_def)

lemma is_digit_neq: "is_digit c \<Longrightarrow> c \<noteq> CHR '':'' \<and> c \<noteq> CHR ''-'' \<and> c \<noteq> CHR ''+'' \<and> c \<noteq> CHR ''I''
   \<and> c \<noteq> CHR ''x'' \<and> c \<noteq> CHR ''X'' \<and> c \<noteq> CHR ''o'' \<and> c \<noteq> CHR ''O'' \<and> c \<noteq> CHR ''b'' \<and> c \<noteq> CHR ''B''"
  by (auto simp: is_digit_def)

lemma trim_id: "s \<noteq> [] \<Longrightarrow> \<not> js_ws (hd s) \<Longrightarrow> \<not> js_ws (last s) \<Longrightarrow> trim s = s"
proof -
  assume a: "s \<noteq> []" "\<not> js_ws (hd s)" "\<not> js_ws (last s)"
  have 1: "dropWhile js_ws s = s" using a by (cases s) auto
  have 2: "dropWhile js_ws (rev s) = rev s" using a by (cases "rev s") (auto simp: last_rev hd_rev)
  show ?thesis by (simp add: trim_def 1 2)
qed

lemma non_decimal_digits:
  assumes "list_all is_digit ds"
  shows "non_decimal_literal ds = None"
proof (cases ds)
  case Nil
  then show ?thesis by (simp add: non_decimal_literal_def)
next
  case (Cons c0 r)
  show ?thesis
  proof (cases r)
    case Nil
    then show ?thesis using Cons by (simp add: non_decimal_literal_def)
  next
    case (Cons c1 r')
    have "is_digit c1" using assms \<open>ds = c0 # r\<close> Cons by simp
    from is_digit_neq[OF this] show ?thesis
      using \<open>ds = c0 # r\<close> Cons by (simp add: non_decimal_literal_def)
  qed
qed

lemma unsigned_decimal_digits:
  assumes "ds \<noteq> []" "list_all is_digit ds"
  shows "str_unsigned_decimal ds = Fin (of_nat (dec_val ds))"
proof -
  have ne: "ds \<noteq> ''Infinity''" using assms(2) by (auto simp: is_digit_def)
  have tw: "takeWhile is_digit ds = ds" using assms(2) by (simp add: list_all_iff)
  have dw: "dropWhile is_digit ds = []" using assms(2) by (simp add: list_all_iff)
  show ?thesis
    using assms(1) ne by (simp add: str_unsigned_decimal_def tw dw exponent_part_def pow10_def dec_val_def)
qed

lemma StringToNumber_digits:
  assumes "ds \<noteq> []" "list_all is_digit ds"
  shows "StringToNumber ds = Fin (of_nat (dec_val ds))"
proof -
  have h: "is_digit (hd ds)" "is_digit (last ds)" using assms by (auto simp: list_all_iff)
  have t: "trim ds = ds" using assms(1) h by (intro trim_id is_digit_not_ws)
  obtain c r where cr: "ds = c # r" using assms(1) by (cases ds) auto
  have c: "c \<noteq> CHR ''+''" "c \<noteq> CHR ''-''" using h(1) cr is_digit_neq by auto
  show ?thesis
    using unsigned_decimal_digits[OF assms] non_decimal_digits[OF assms(2)] c t
    by (simp add: StringToNumber_def Let_def cr)
qed

lemma StringToNumber_neg_digits:
  assumes "ds \<noteq> []" "list_all is_digit ds"
  shows "StringToNumber (CHR ''-'' # ds) = Fin (- of_nat (dec_val ds))"
proof -
  have h: "is_digit (last ds)" using assms by (auto simp: list_all_iff)
  have t: "trim (CHR ''-'' # ds) = CHR ''-'' # ds"
    using assms(1) is_digit_not_ws[OF h] by (intro trim_id) (auto simp: js_ws_def)
  have n: "non_decimal_literal (CHR ''-'' # ds) = None"
    by (simp add: non_decimal_literal_def split: list.splits)
  show ?thesis
    using unsigned_decimal_digits[OF assms] n by (simp add: StringToNumber_def Let_def t)
qed

lemma StringToNumber_show_int: "StringToNumber (show_int i) = Fin (of_int i)"
proof (cases "i < 0")
  case True
  then show ?thesis
    using StringToNumber_neg_digits[OF show_nat_nonempty show_nat_digits, of "nat (- i)"]
    by (simp add: show_int_def dec_val_show_nat)
next
  case False
  then show ?thesis
    using StringToNumber_digits[OF show_nat_nonempty show_nat_digits, of "nat i"]
    by (simp add: show_int_def dec_val_show_nat)
qed

lemma parseInt10_digits:
  assumes "ds \<noteq> []" "list_all is_digit ds"
  shows "parseInt10 (Some ds) = Some (int (dec_val ds))"
proof -
  obtain c r where cr: "ds = c # r" using assms(1) by (cases ds) auto
  have d: "is_digit c" using assms(2) cr by simp
  have dw: "dropWhile js_ws ds = ds" using is_digit_not_ws[OF d] cr by simp
  have tw: "takeWhile is_digit ds = ds" using assms(2) by (simp add: list_all_iff)
  have "parseInt10 (Some ds) = (let S = dropWhile js_ws ds;
          neg = (case S of [] \<Rightarrow> False | c # r \<Rightarrow> c = CHR ''-'');
          S1 = (case S of [] \<Rightarrow> [] | c # r \<Rightarrow> if c = CHR ''-'' \<or> c = CHR ''+'' then r else S);
          Z = takeWhile is_digit S1
      in if Z = [] then None
         else Some (if neg then - int (dec_val Z) else int (dec_val Z)))"
    by (simp add: parseInt10_def)
  also have "\<dots> = Some (int (dec_val ds))"
    unfolding dw Let_def using is_digit_neq[OF d] assms(1) tw by (simp add: cr)
  finally show ?thesis .
qed

lemma parseInt10_neg_digits:
  assumes "ds \<noteq> []" "list_all is_digit ds"
  shows "parseInt10 (Some (CHR ''-'' # ds)) = Some (- int (dec_val ds))"
proof -
  have tw: "takeWhile is_digit ds = ds" using assms(2) by (simp add: list_all_iff)
  show ?thesis using assms(1)
    by (simp add: parseInt10_def js_ws_def Let_def tw)
qed

lemma parseInt10_show_int: "parseInt10 (Some (show_int i)) = Some i"
proof (cases "i < 0")
  case True
  then show ?thesis
    using parseInt10_neg_digits[OF show_nat_nonempty show_nat_digits, of "nat (- i)"]
    by (simp add: show_int_def dec_val_show_nat)
next
  case False
  then show ?thesis
    using parseInt10_digits[OF show_nat_nonempty show_nat_digits, of "nat i"]
    by (simp add: show_int_def dec_val_show_nat)
qed

lemma show_int_no_colon: "CHR '':'' \<notin> set (show_int i)"
  using show_nat_digits[of "nat i"] show_nat_digits[of "nat (- i)"]
  by (auto simp: show_int_def list_all_iff dest: is_digit_neq)

lemma show_int_nonempty: "show_int i \<noteq> []"
  by (simp add: show_int_def show_nat_nonempty)

lemma js_split_no_sep: "d \<notin> set a \<Longrightarrow> js_split d a = [a]"
  by (induction a) auto

lemma js_split_append: "d \<notin> set a \<Longrightarrow> js_split d (a @ d # b) = a # js_split d b"
  by (induction a) auto

lemma expired_Fin:
  "expired now (Fin (of_int t)) = (BUTTON_TTL < now - t)"
  by (simp add: expired_def flip: of_int_diff)

lemma customId_split:
  assumes "CHR '':'' \<notin> set action" "CHR '':'' \<notin> set invokerId"
  shows "js_split CHR '':'' (customId action page invokerId t)
           = [action, show_int page, invokerId, show_int t]"
  using assms
  by (simp add: customId_def js_split_append js_split_no_sep show_int_no_colon)

lemma customId_fields:
  assumes "CHR '':'' \<notin> set action" "CHR '':'' \<notin> set invokerId"
  shows "token_prefix (customId action page invokerId t) = Some action"
    and "token_pageStr (customId action page invokerId t) = Some (show_int page)"
    and "token_invokerId (customId action page invokerId t) = Some invokerId"
    and "token_createdAtStr (customId action page invokerId t) = Some (show_int t)"
  by (simp_all add: token_prefix_def token_pageStr_def token_invokerId_def
      token_createdAtStr_def nth_opt_def customId_split[OF assms])

section \<open>Page arithmetic\<close>

lemma ceil_div_nat: "\<lceil>rat_of_nat n / rat_of_nat PAGE_SIZE\<rceil> = (int n + 19) div 20"
proof -
  have "\<lceil>rat_of_nat n / rat_of_nat PAGE_SIZE\<rceil> = \<lceil>rat_of_int (int n) / rat_of_int 20\<rceil>"
    by (simp add: PAGE_SIZE_def)
  also have "\<dots> = - (- int n div 20)"
    by (rule ceiling_divide_eq_div)
  also have "\<dots> = (int n + 19) div 20"
    by arith
  finally show ?thesis .
qed

lemma page_count_div: "page_count n = max 1 ((int n + 19) div 20)"
  by (simp add: page_count_def ceil_div_nat)





lemma build_page: "pv_page (page_fields us p invokerId now) = clamp_page p (page_count (length us))"
  by (simp add: page_fields_def Let_def)



text \<open>The custom ids of the two buttons of a page.\<close>

lemma build_prev_id:
  "pv_prev_id (page_fields us p invokerId now)
     = customId ''userlist_prev'' (pv_page (page_fields us p invokerId now) - 1) invokerId now"
  by (simp add: page_fields_def Let_def)

lemma build_next_id:
  "pv_next_id (page_fields us p invokerId now)
     = customId ''userlist_next'' (pv_page (page_fields us p invokerId now) + 1) invokerId now"
  by (simp add: page_fields_def Let_def)

lemma issued_next_userlist:
  "CHR '':'' \<notin> set invokerId \<Longrightarrow>
     is_userlist (token_prefix (pv_next_id (page_fields us p invokerId now)))"
  by (simp add: build_next_id customId_fields is_userlist_def startsWith_def)

lemma issued_next_createdAt:
  "CHR '':'' \<notin> set invokerId \<Longrightarrow>
     token_createdAt (pv_next_id (page_fields us p invokerId now)) = Fin (of_int now)"
  by (simp add: build_next_id customId_fields token_createdAt_def StringToNumber_show_int
      show_int_nonempty)

lemma issued_next_invoker:
  "CHR '':'' \<notin> set invokerId \<Longrightarrow>
     token_invokerId (pv_next_id (page_fields us p invokerId now)) = Some invokerId"
  by (simp add: build_next_id customId_fields)



lemma build_lines:
  "pv_lines (page_fields us p invokerId now)
     = map (\<lambda>u. (formatUserDisplay u, or_else (user_id u) ''UnknownID'',
                     or_else (ip u) ''Unknown''))
         (take PAGE_SIZE
            (drop (nat ((clamp_page p (page_count (length us)) - 1) * int PAGE_SIZE))
               (map snd us)))"
  by (simp add: page_fields_def Let_def)

lemma build_Inr:
  "buildUserlistPage accepts us p invokerId now = Inr pv
     \<longleftrightarrow> accepts (page_fields us p invokerId now) \<and> pv = page_fields us p invokerId now"
  by (auto simp: buildUserlistPage_def Let_def)


text \<open>
  A page whose lines have at most 203 code units each stays below the limit of the
  description: 20 lines and 19 line feeds are at most 4079 code units.
\<close>

lemma sum_list_bound: "(\<forall>x \<in> set xs. f x \<le> (c::nat)) \<Longrightarrow> sum_list (map f xs) \<le> length xs * c"
  by (induction xs) auto

lemma sum_list_lower: "(\<forall>x \<in> set xs. (c::nat) \<le> f x) \<Longrightarrow> length xs * c \<le> sum_list (map f xs)"
  by (induction xs) auto

lemma description_short:
  assumes "\<forall>l \<in> set ls. line_length l \<le> 203" "length ls \<le> 20"
  shows "description_length ls \<le> 4096"
proof -
  have "sum_list (map line_length ls) \<le> length ls * 203"
    using assms(1) by (rule sum_list_bound)
  also have "\<dots> \<le> 20 * 203" using assms(2) by simp
  finally show ?thesis using assms(2) by (auto simp: description_length_def)
qed

lemma short_lines_accepted:
  assumes "\<forall>u \<in> snd ` set us.
             line_length (formatUserDisplay u, or_else (user_id u) ''UnknownID'',
                          or_else (ip u) ''Unknown'') \<le> 203"
  shows "discord_limits (page_fields us p invokerId now)"
proof -
  let ?f = "\<lambda>u. (formatUserDisplay u, or_else (user_id u) ''UnknownID'', or_else (ip u) ''Unknown'')"
  let ?sl = "take PAGE_SIZE
            (drop (nat ((clamp_page p (page_count (length us)) - 1) * int PAGE_SIZE))
               (map snd us))"
  have sub: "set ?sl \<subseteq> snd ` set us"
    using set_take_subset[of PAGE_SIZE] set_drop_subset[of _ "map snd us"] by fastforce
  have 1: "\<forall>l \<in> set (map ?f ?sl). line_length l \<le> 203" using assms sub by auto
  have 2: "length (map ?f ?sl) \<le> 20" by (simp add: PAGE_SIZE_def)
  show ?thesis
    unfolding discord_limits_def build_lines by (rule description_short[OF 1 2])
qed

section \<open>The trace of the dispatcher\<close>









































section \<open>The refresher loop\<close>

lemma evict_simps:
  "users (rl_state (evict ev k st)) = AList.delete k (users (rl_state st))"
  "users_file (rl_state (evict ev k st)) = users_file (rl_state st)"
  "saves (rl_state (evict ev k st)) = saves (rl_state st)"
  "rl_refreshed (evict ev k st) = rl_refreshed st"
  "rl_deleted (evict ev k st) = rl_deleted st + 1"
  "rl_world (evict ev k st) = rl_world st"
  by (simp_all add: evict_def)

lemma resume_simps:
  "rl_state (resume others w st) = others w (rl_state st)"
  "rl_refreshed (resume others w st) = rl_refreshed st"
  "rl_deleted (resume others w st) = rl_deleted st"
  "rl_world (resume others w st) = w"
  "rl_log (resume others w st) = rl_log st"
  by (simp_all add: resume_def)

lemma rotate_tokens_truthy:
  "truthy (refresh_token ud) \<Longrightarrow> truthy (refresh_token (rotate_tokens u ud td))"
  by (simp add: rotate_tokens_def Let_def)

lemma rotate_tokens_spec:
  "truthy (refresh_token ud) \<Longrightarrow> truthy (td_access_token td) \<Longrightarrow>
     spec_refresh_record ud (JsonObj td) = Some (rotate_tokens ud ud td)"
  by (simp add: rotate_tokens_def spec_refresh_record_def Let_def)

text \<open>The two ways an iteration can end.\<close>

lemma refresh_entry_no_token:
  "\<not> truthy (refresh_token ud) \<Longrightarrow>
     refresh_entry api others (k, ud) st = evict (DeleteNoToken k) k st"
  by (simp add: refresh_entry_def)

lemma refresh_entry_call:
  assumes "truthy (refresh_token ud)"
    and "api (rl_world st) (or_else (refresh_token ud) []) = (resp, w)"
  shows "refresh_entry api others (k, ud) st =
     (case resp of
        FetchThrew \<Rightarrow> evict (DeleteRefreshError k) k (resume others w st)
      | JsonNull \<Rightarrow> evict (DeleteRefreshFailed k) k (resume others w st)
      | JsonObj td \<Rightarrow>
          if \<not> truthy (td_access_token td)
          then evict (DeleteRefreshFailed k) k (resume others w st)
          else (case map_of (users (rl_state (resume others w st))) k of
                  None \<Rightarrow> evict (DeleteRefreshError k) k (resume others w st)
                | Some u \<Rightarrow>
                    (resume others w st)
                      \<lparr>rl_state := (rl_state (resume others w st))
                         \<lparr>users := AList.update k (rotate_tokens u ud td)
                                     (users (rl_state (resume others w st)))\<rparr>,
                       rl_refreshed := rl_refreshed (resume others w st) + 1\<rparr>))"
  using assms by (simp add: refresh_entry_def Let_def split: token_response.splits option.splits)

lemma refresh_entry_cases:
  obtains (evicted) ev st1 where
      "refresh_entry api others (k, ud) st = evict ev k st1"
      "rl_refreshed st1 = rl_refreshed st" "rl_deleted st1 = rl_deleted st"
      "\<not> truthy (refresh_token ud) \<longrightarrow> st1 = st"
      "truthy (refresh_token ud) \<longrightarrow>
         st1 = resume others (snd (api (rl_world st) (or_else (refresh_token ud) []))) st
         \<and> (spec_refresh_record ud (fst (api (rl_world st) (or_else (refresh_token ud) []))) = None
            \<or> map_of (users (rl_state st1)) k = None)"
  | (refreshed) td w u st1 where
      "truthy (refresh_token ud)"
      "api (rl_world st) (or_else (refresh_token ud) []) = (JsonObj td, w)"
      "truthy (td_access_token td)"
      "st1 = resume others w st"
      "map_of (users (rl_state st1)) k = Some u"
      "refresh_entry api others (k, ud) st =
         st1\<lparr>rl_state := (rl_state st1)
                \<lparr>users := AList.update k (rotate_tokens u ud td) (users (rl_state st1))\<rparr>,
             rl_refreshed := rl_refreshed st1 + 1\<rparr>"
proof (cases "truthy (refresh_token ud)")
  case False
  show ?thesis
    by (rule evicted[of "DeleteNoToken k" st]) (simp_all add: refresh_entry_no_token False)
next
  case True
  obtain resp w where r: "api (rl_world st) (or_else (refresh_token ud) []) = (resp, w)"
    by (cases "api (rl_world st) (or_else (refresh_token ud) [])")
  note eq = refresh_entry_call[where api = api and st = st and k = k and others = others,
      OF True r]
  let ?st1 = "resume others w st"
  show ?thesis
  proof (cases resp)
    case FetchThrew
    show ?thesis
      by (rule evicted[of "DeleteRefreshError k" ?st1])
        (simp_all add: eq FetchThrew r True spec_refresh_record_def resume_simps)
  next
    case JsonNull
    show ?thesis
      by (rule evicted[of "DeleteRefreshFailed k" ?st1])
        (simp_all add: eq JsonNull r True spec_refresh_record_def resume_simps)
  next
    case (JsonObj td)
    show ?thesis
    proof (cases "truthy (td_access_token td)")
      case False
      show ?thesis
        by (rule evicted[of "DeleteRefreshFailed k" ?st1])
          (simp_all add: eq JsonObj False r True spec_refresh_record_def resume_simps)
    next
      case at: True
      show ?thesis
      proof (cases "map_of (users (rl_state ?st1)) k")
        case None
        show ?thesis
          by (rule evicted[of "DeleteRefreshError k" ?st1])
            (simp_all add: eq JsonObj at None None[unfolded resume_simps] r True resume_simps)
      next
        case (Some u)
        show ?thesis
          by (rule refreshed[OF True _ at _ Some, of w])
            (simp_all add: eq JsonObj at Some r)
      qed
    qed
  qed
qed

lemma refresh_entry_counts:
  "rl_refreshed (refresh_entry api others e st) + rl_deleted (refresh_entry api others e st)
     = rl_refreshed st + rl_deleted st + 1"
proof -
  obtain k ud where e: "e = (k, ud)" by (cases e)
  show ?thesis unfolding e
    by (cases rule: refresh_entry_cases[of api others k ud st])
      (simp_all add: evict_simps resume_simps)
qed

lemma refresh_entries_counts:
  "rl_refreshed (refresh_entries api others es st) + rl_deleted (refresh_entries api others es st)
     = rl_refreshed st + rl_deleted st + length es"
  by (induction es arbitrary: st) (simp_all add: refresh_entry_counts)

text \<open>The loop itself never saves: the saves made meanwhile are those of the other handlers.\<close>

lemma refresh_entry_saves:
  assumes "\<And>w s. saves (others w s) = saves s"
  shows "saves (rl_state (refresh_entry api others e st)) = saves (rl_state st)"
proof -
  obtain k ud where e: "e = (k, ud)" by (cases e)
  have "saves (rl_state (refresh_entry api others (k, ud) st)) = saves (rl_state st)"
  proof (cases rule: refresh_entry_cases[of api others k ud st])
    case (evicted ev st1)
    have "saves (rl_state st1) = saves (rl_state st)"
      using evicted(4,5) assms by (cases "truthy (refresh_token ud)") (simp_all add: resume_simps)
    then show ?thesis by (simp add: evicted(1) evict_simps)
  next
    case (refreshed td w u st1)
    show ?thesis by (simp add: refreshed(6) refreshed(4) resume_simps assms)
  qed
  then show ?thesis by (simp add: e)
qed

lemma refresh_entries_saves:
  assumes "\<And>w s. saves (others w s) = saves s"
  shows "saves (rl_state (refresh_entries api others es st)) = saves (rl_state st)"
  by (induction es arbitrary: st) (simp_all add: refresh_entry_saves[OF assms])

lemma set_delete: "set (AList.delete k al) = {p \<in> set al. fst p \<noteq> k}"
  by (induction al) auto

lemma set_update_subset: "set (AList.update k v al) \<subseteq> insert (k, v) (set al)"
  by (induction al) auto

text \<open>
  From here on no handler touches \<open>users\<close> while the pass waits. Every record left is
  then refreshable, or still waits for its turn.
\<close>

lemma refresh_entry_inv:
  assumes q: "\<And>w s. users (others w s) = users s"
    and "\<forall>p \<in> set (users (rl_state st)). truthy (refresh_token (snd p)) \<or> p \<in> set ((k, ud) # es)"
  shows "\<forall>p \<in> set (users (rl_state (refresh_entry api others (k, ud) st))).
           truthy (refresh_token (snd p)) \<or> p \<in> set es"
proof (cases rule: refresh_entry_cases[of api others k ud st])
  case (evicted ev st1)
  have "users (rl_state st1) = users (rl_state st)"
    using evicted(4,5) q by (cases "truthy (refresh_token ud)") (simp_all add: resume_simps)
  then show ?thesis using assms(2)
    by (auto simp: evicted(1) evict_simps set_delete)
next
  case (refreshed td w u st1)
  let ?v = "rotate_tokens u ud td"
  have t: "truthy (refresh_token ?v)" using refreshed(1) by (rule rotate_tokens_truthy)
  have s1: "users (rl_state st1) = users (rl_state st)"
    by (simp add: refreshed(4) resume_simps q)
  have u: "users (rl_state (refresh_entry api others (k, ud) st))
      = AList.update k ?v (users (rl_state st))"
    by (simp add: refreshed(6) s1)
  show ?thesis
  proof
    fix p assume "p \<in> set (users (rl_state (refresh_entry api others (k, ud) st)))"
    then have "p = (k, ?v) \<or> p \<in> set (users (rl_state st))"
      using set_update_subset[of k ?v "users (rl_state st)"] unfolding u by blast
    then show "truthy (refresh_token (snd p)) \<or> p \<in> set es"
    proof
      assume "p = (k, ?v)"
      then show ?thesis using t by simp
    next
      assume "p \<in> set (users (rl_state st))"
      then have "truthy (refresh_token (snd p)) \<or> p \<in> set ((k, ud) # es)"
        using assms(2) by blast
      then show ?thesis using refreshed(1) by auto
    qed
  qed
qed

lemma refresh_entries_inv:
  assumes q: "\<And>w s. users (others w s) = users s"
    and "\<forall>p \<in> set (users (rl_state st)). truthy (refresh_token (snd p)) \<or> p \<in> set es"
  shows "\<forall>p \<in> set (users (rl_state (refresh_entries api others es st))).
           truthy (refresh_token (snd p))"
  using assms(2)
proof (induction es arbitrary: st)
  case Nil
  then show ?case by simp
next
  case (Cons e es)
  obtain k ud where e: "e = (k, ud)" by (cases e)
  show ?case
    using Cons.IH[OF refresh_entry_inv[where others = others, OF q Cons.prems[unfolded e]]]
    by (simp add: e)
qed

text \<open>No iteration adds a key; a record without a refresh token loses its key for good.\<close>

lemma refresh_entry_keys:
  assumes q: "\<And>w s. users (others w s) = users s"
  shows "fst ` set (users (rl_state (refresh_entry api others (k, ud) st)))
           \<subseteq> fst ` set (users (rl_state st))"
proof (cases rule: refresh_entry_cases[of api others k ud st])
  case (evicted ev st1)
  have "users (rl_state st1) = users (rl_state st)"
    using evicted(4,5) q by (cases "truthy (refresh_token ud)") (simp_all add: resume_simps)
  then show ?thesis
    using dom_delete_subset[of k "users (rl_state st)"] by (simp add: evicted(1) evict_simps)
next
  case (refreshed td w u st1)
  have s1: "users (rl_state st1) = users (rl_state st)"
    by (simp add: refreshed(4) resume_simps q)
  have "k \<in> fst ` set (users (rl_state st))"
    using map_of_SomeD[OF refreshed(5)] unfolding s1 by force
  then show ?thesis by (auto simp: refreshed(6) s1 dom_update)
qed

lemma refresh_entries_keys:
  assumes q: "\<And>w s. users (others w s) = users s"
  shows "fst ` set (users (rl_state (refresh_entries api others es st)))
           \<subseteq> fst ` set (users (rl_state st))"
proof (induction es arbitrary: st)
  case Nil
  show ?case by simp
next
  case (Cons e es)
  obtain k ud where e: "e = (k, ud)" by (cases e)
  show ?case
    using Cons.IH[of "refresh_entry api others (k, ud) st"]
      refresh_entry_keys[where others = others and api = api and k = k and ud = ud and st = st,
        OF q]
    by (simp add: e)
qed

lemma refresh_entries_evicts:
  assumes q: "\<And>w s. users (others w s) = users s"
    and "(k, ud) \<in> set es" "\<not> truthy (refresh_token ud)"
  shows "k \<notin> fst ` set (users (rl_state (refresh_entries api others es st)))"
  using assms(2)
proof (induction es arbitrary: st)
  case Nil
  then show ?case by simp
next
  case (Cons e es)
  show ?case
  proof (cases "e = (k, ud)")
    case True
    have "k \<notin> fst ` set (users (rl_state (refresh_entry api others (k, ud) st)))"
      using delete_notin_dom[of k "users (rl_state st)"]
      by (simp add: refresh_entry_no_token[OF assms(3)] evict_simps)
    then show ?thesis
      using refresh_entries_keys[where others = others and api = api and es = es
          and st = "refresh_entry api others (k, ud) st", OF q]
      by (auto simp: True)
  next
    case False
    then have "(k, ud) \<in> set es" using Cons.prems by simp
    then show ?thesis using Cons.IH by simp
  qed
qed

text \<open>With distinct keys the loop then leaves exactly the store of \<open>spec_pass\<close>.\<close>

lemma map_of_mid: "k \<notin> fst ` set ds \<Longrightarrow> map_of (ds @ (k, v) # es) k = Some v"
  by (induction ds) auto

lemma delete_mid:
  "k \<notin> fst ` set ds \<Longrightarrow> k \<notin> fst ` set es \<Longrightarrow> AList.delete k (ds @ (k, v) # es) = ds @ es"
  by (induction ds) auto

lemma update_mid:
  "k \<notin> fst ` set ds \<Longrightarrow> AList.update k v' (ds @ (k, v) # es) = ds @ (k, v') # es"
  by (induction ds) auto

lemma spec_pass_Cons_no_token:
  "\<not> truthy (refresh_token ud) \<Longrightarrow> spec_pass api w ((k, ud) # es) = spec_pass api w es"
  by simp

lemma spec_pass_Cons_call:
  "truthy (refresh_token ud) \<Longrightarrow>
   spec_pass api w ((k, ud) # es) =
     (case spec_refresh_record ud (fst (api w (or_else (refresh_token ud) []))) of
        None \<Rightarrow> spec_pass api (snd (api w (or_else (refresh_token ud) []))) es
      | Some u1 \<Rightarrow> (k, u1) # spec_pass api (snd (api w (or_else (refresh_token ud) []))) es)"
  by (cases "api w (or_else (refresh_token ud) [])") (simp split: option.splits)

lemma refresh_entries_spec:
  assumes q: "\<And>w s. users (others w s) = users s"
    and "users (rl_state st) = ds @ es" "distinct (map fst (ds @ es))"
  shows "users (rl_state (refresh_entries api others es st))
           = ds @ spec_pass api (rl_world st) es"
  using assms(2,3)
proof (induction es arbitrary: st ds)
  case Nil
  then show ?case by simp
next
  case (Cons e es)
  obtain k ud where e: "e = (k, ud)" by (cases e)
  have kd: "k \<notin> fst ` set ds" and ke: "k \<notin> fst ` set es"
    using Cons.prems(2) by (auto simp: e)
  have us: "users (rl_state st) = ds @ (k, ud) # es" using Cons.prems(1) by (simp add: e)
  have look: "map_of (users (rl_state st)) k = Some ud" unfolding us by (rule map_of_mid[OF kd])
  show ?case
  proof (cases rule: refresh_entry_cases[of api others k ud st])
    case (evicted ev st1)
    let ?st = "refresh_entry api others (k, ud) st"
    have s1: "users (rl_state st1) = users (rl_state st)"
      using evicted(4,5) q by (cases "truthy (refresh_token ud)") (simp_all add: resume_simps)
    have u1: "users (rl_state ?st) = ds @ es"
      by (simp add: evicted(1) evict_simps s1 us delete_mid[OF kd ke])
    have d1: "distinct (map fst (ds @ es))" using Cons.prems(2) by (simp add: e)
    have sp: "spec_pass api (rl_world st) ((k, ud) # es) = spec_pass api (rl_world ?st) es"
    proof (cases "truthy (refresh_token ud)")
      case False
      then show ?thesis using evicted(4) by (simp add: evicted(1) evict_simps)
    next
      case True
      then have "rl_world ?st = snd (api (rl_world st) (or_else (refresh_token ud) []))"
        using evicted(5) by (simp add: evicted(1) evict_simps resume_simps)
      then show ?thesis using True evicted(5) look s1
        by (simp add: spec_pass_Cons_call del: spec_pass.simps)
    qed
    show ?thesis using Cons.IH[OF u1 d1] by (simp add: e sp del: spec_pass.simps)
  next
    case (refreshed td w u st1)
    let ?st = "refresh_entry api others (k, ud) st"
    have s1: "users (rl_state st1) = users (rl_state st)"
      by (simp add: refreshed(4) resume_simps q)
    have uu: "u = ud" using refreshed(5) look s1 by simp
    have u1: "users (rl_state ?st) = (ds @ [(k, rotate_tokens ud ud td)]) @ es"
      by (simp add: refreshed(6) s1 us uu update_mid[OF kd])
    have d1: "distinct (map fst ((ds @ [(k, rotate_tokens ud ud td)]) @ es))"
      using Cons.prems(2) by (simp add: e)
    have w1: "rl_world ?st = w" by (simp add: refreshed(6) refreshed(4) resume_simps)
    have sp: "spec_pass api (rl_world st) ((k, ud) # es)
                = (k, rotate_tokens ud ud td) # spec_pass api w es"
      by (simp add: spec_pass_Cons_call[OF refreshed(1)] refreshed(2)
          rotate_tokens_spec[OF refreshed(1) refreshed(3)] del: spec_pass.simps)
    show ?thesis using Cons.IH[OF u1 d1] by (simp add: e w1 sp del: spec_pass.simps)
  qed
qed

text \<open>The pass as a whole.\<close>

lemma refreshAllTokens_empty:
  "users_file st = [] \<Longrightarrow>
     refreshAllTokens api others w st = (st\<lparr>users := []\<rparr>, w, [RefreshStart, NoUsers])"
  by (simp add: refreshAllTokens_def loadJson_def)

lemma refreshAllTokens_nonempty:
  fixes api :: "'w refresh_api" and others :: "'w interleaving" and w :: 'w and st :: bot_state
  assumes "users_file st \<noteq> []"
  defines "l \<equiv> refresh_entries api others (users_file st)
                  \<lparr>rl_state = st\<lparr>users := users_file st\<rparr>, rl_refreshed = 0,
                   rl_deleted = 0, rl_world = w, rl_log = [RefreshStart]\<rparr>"
  shows "refreshAllTokens api others w st =
           ((rl_state l)\<lparr>users_file := users (rl_state l),
                         saves := saves (rl_state l) @ [users (rl_state l)]\<rparr>,
            rl_world l, rl_log l @ [RefreshComplete (rl_refreshed l) (rl_deleted l)])"
  using assms(1) unfolding l_def
  by (simp add: refreshAllTokens_def loadJson_def saveJson_def Let_def)

text \<open>The pass that runs alone, and the pass over a store with distinct keys.\<close>

lemma quiet_pass_store:
  assumes q: "\<And>w s. users (others w s) = users s"
    and ne: "users_file st \<noteq> []" and d: "distinct (map fst (users_file st))"
  shows "users_file (fst (refreshAllTokens api others w st)) = spec_pass api w (users_file st)"
proof -
  let ?init = "\<lparr>rl_state = st\<lparr>users := users_file st\<rparr>, rl_refreshed = 0,
                   rl_deleted = 0, rl_world = w, rl_log = [RefreshStart]\<rparr>"
  have 1: "users (rl_state ?init) = [] @ users_file st" by simp
  have 2: "distinct (map fst ([] @ users_file st))" using d by simp
  have "users (rl_state (refresh_entries api others (users_file st) ?init))
      = [] @ spec_pass api (rl_world ?init) (users_file st)"
    by (rule refresh_entries_spec[where others = others, OF q 1 2])
  then show ?thesis by (simp add: refreshAllTokens_nonempty[OF ne])
qed

section \<open>The concrete inputs evaluated\<close>

lemma StringToNumber_example: "StringToNumber ''1700000000000'' = Fin 1700000000000"
  using StringToNumber_digits[of "''1700000000000''"]
  by (simp add: is_digit_def dec_val_def digit_val_def)

lemma is_userlist_next: "is_userlist (Some ''userlist_next'')"
  by (simp add: is_userlist_def startsWith_def)

lemma token_badpage_fields:
  "token_prefix example_badpage_button = Some ''userlist_next''"
  "token_pageStr example_badpage_button = Some ''abc''"
  "token_invokerId example_badpage_button = Some example_invoker"
  "token_createdAtStr example_badpage_button = Some ''1700000000000''"
  by (simp_all add: example_badpage_button_def example_invoker_def token_prefix_def
      token_pageStr_def token_invokerId_def token_createdAtStr_def nth_opt_def)

lemma token_badpage_createdAt: "token_createdAt example_badpage_button = Fin 1700000000000"
  by (simp add: token_createdAt_def token_badpage_fields StringToNumber_example)

lemma parseInt10_abc: "parseInt10 (Some ''abc'') = None"
  by (simp add: parseInt10_def js_ws_def is_digit_def Let_def)

lemma token_short_fields:
  "token_prefix example_short_button = Some ''userlist_next''"
  "token_createdAtStr example_short_button = None"
  by (simp_all add: example_short_button_def token_prefix_def token_createdAtStr_def nth_opt_def)

lemma token_foreign_prefix: "\<not> is_userlist (token_prefix example_foreign_button)"
  by (simp add: example_foreign_button_def token_prefix_def nth_opt_def is_userlist_def
      startsWith_def)

lemma example_invoker_no_colon: "CHR '':'' \<notin> set example_invoker"
  by (simp add: example_invoker_def)

lemma example_button_fields:
  "is_userlist (token_prefix example_button)"
  "token_createdAt example_button = Fin 1700000000000"
  "token_invokerId example_button = Some example_invoker"
  using issued_next_userlist[OF example_invoker_no_colon, of example_store 1 1700000000000]
    issued_next_createdAt[OF example_invoker_no_colon, of example_store 1 1700000000000]
    issued_next_invoker[OF example_invoker_no_colon, of example_store 1 1700000000000]
  by (simp_all add: example_button_def)

lemma example_ids_differ: "example_invoker \<noteq> example_other"
  by (simp add: example_invoker_def example_other_def)

lemma not_expired_example: "\<not> expired 1700000001000 (Fin 1700000000000)"
  using expired_Fin[of 1700000001000 1700000000000] by (simp add: BUTTON_TTL_def)

lemma customId_colon_split:
  "js_split CHR '':'' (customId ''userlist_next'' 2 ''a:b'' 1700000000000)
     = [''userlist_next'', show_int 2, ''a'', ''b'', show_int 1700000000000]"
proof -
  have "customId ''userlist_next'' 2 ''a:b'' 1700000000000
      = ''userlist_next'' @ CHR '':'' # (show_int 2 @ CHR '':'' # (''a'' @ CHR '':'' #
          (''b'' @ CHR '':'' # show_int 1700000000000)))"
    by (simp add: customId_def)
  then show ?thesis
    by (simp add: js_split_append js_split_no_sep show_int_no_colon del: append.simps)
qed

lemma StringToNumber_b: "StringToNumber ''b'' = NaN"
  by (simp add: StringToNumber_def trim_def js_ws_def non_decimal_literal_def
      str_unsigned_decimal_def is_digit_def Let_def)


lemma example_state_simps:
  "users_file example_state = example_store" "saves example_state = []"
  "users_file empty_state = []" "saves empty_state = []"
  by (simp_all add: example_state_def empty_state_def)

lemma example_keys_differ:
  "example_id_ann \<noteq> example_id_bob" "example_id_bob \<noteq> example_id_ann"
  by (simp_all add: example_id_ann_def example_id_bob_def)

lemma example_store_props:
  "example_store \<noteq> []" "length example_store = 2" "distinct (map fst example_store)"
  by (simp_all add: example_store_def example_keys_differ)

text \<open>What the builders make of the example stores.\<close>

lemma example_store_short:
  "\<forall>u \<in> snd ` set example_store.
     line_length (formatUserDisplay u, or_else (user_id u) ''UnknownID'',
                  or_else (ip u) ''Unknown'') \<le> 203"
  by (simp add: example_store_def example_user_def example_user_no_refresh_def
      formatUserDisplay_def or_else_def line_length_def example_id_ann_def example_id_bob_def)


lemma example_render:
  "buildUserlistPage discord_limits example_store 1 example_invoker now
     = Inr (page_fields example_store 1 example_invoker now)"
  by (simp add: build_Inr short_lines_accepted[OF example_store_short])

lemma example_long_lines:
  "pv_lines (page_fields example_long_store 1 invokerId now)
     = map (\<lambda>i. (''ann'', show_nat (100000000000000000 + i), example_long_ip)) [0..<20]"
proof -
  have m: "map snd example_long_store
      = map (\<lambda>i. example_user\<lparr>user_id := Some (show_nat (100000000000000000 + i)),
                               ip := Some example_long_ip\<rparr>) [0..<20]"
    by (simp add: example_long_store_def comp_def)
  have n: "example_long_ip \<noteq> []" by (simp add: example_long_ip_def)
  show ?thesis
    unfolding build_lines m
    using n
    by (simp add: page_count_div clamp_page_def PAGE_SIZE_def formatUserDisplay_def
        or_else_def example_user_def show_nat_nonempty comp_def)
qed

lemma example_long_refused:
  "\<not> discord_limits (page_fields example_long_store 1 invokerId now)"
proof -
  let ?ls = "map (\<lambda>i. (''ann'', show_nat (100000000000000000 + i), example_long_ip)) [0..<20]"
  have "\<forall>l \<in> set ?ls. 227 \<le> line_length l"
    by (auto simp: line_length_def example_long_ip_def)
  then have "length ?ls * 227 \<le> sum_list (map line_length ?ls)" by (rule sum_list_lower)
  then have "4540 \<le> sum_list (map line_length ?ls)" by simp
  then have "4096 < description_length ?ls" by (simp add: description_length_def)
  then show ?thesis by (simp add: discord_limits_def example_long_lines)
qed


lemma example_truthy:
  "truthy (refresh_token example_user)" "\<not> truthy (refresh_token example_user_no_refresh)"
  by (simp_all add: example_user_no_refresh_def example_user_def truthy_def)

lemma example_refresh_record:
  "spec_refresh_record example_user (fst (example_refresh_api () rt))
     = Some (example_user\<lparr>access_token := Some ''at2''\<rparr>)"
  by (simp add: example_refresh_api_def spec_refresh_record_def truthy_def example_user_def)

lemma example_spec_pass:
  "spec_pass example_refresh_api () example_store
     = [(example_id_ann, example_user\<lparr>access_token := Some ''at2''\<rparr>)]"
proof -
  have 1: "spec_pass example_refresh_api () [(example_id_bob, example_user_no_refresh)] = []"
    using example_truthy(2) by simp
  have "spec_pass example_refresh_api () example_store
      = (example_id_ann, example_user\<lparr>access_token := Some ''at2''\<rparr>)
          # spec_pass example_refresh_api () [(example_id_bob, example_user_no_refresh)]"
    unfolding example_store_def
    by (simp add: spec_pass_Cons_call[OF example_truthy(1)] example_refresh_record
        del: spec_pass.simps)
  then show ?thesis by (simp only: 1)
qed

lemma example_racing_spec_pass:
  "spec_pass example_refresh_api ()
     [(example_id_bob, example_user_no_refresh), (example_id_ann, example_user)]
     = [(example_id_ann, example_user\<lparr>access_token := Some ''at2''\<rparr>)]"
proof -
  have 1: "spec_pass example_refresh_api () [] = []" by simp
  have 2: "spec_pass example_refresh_api () [(example_id_ann, example_user)]
      = (example_id_ann, example_user\<lparr>access_token := Some ''at2''\<rparr>)
          # spec_pass example_refresh_api () []"
    by (simp add: spec_pass_Cons_call[OF example_truthy(1)] example_refresh_record
        del: spec_pass.simps)
  show ?thesis
    by (simp only: spec_pass_Cons_no_token[OF example_truthy(2)] 2 1)
qed

lemma example_rotate:
  "rotate_tokens example_user example_user
       \<lparr>td_token_type = Some ''Bearer'', td_access_token = Some ''at2'', td_refresh_token = None\<rparr>
     = example_user\<lparr>access_token := Some ''at2''\<rparr>"
  by (simp add: rotate_tokens_def Let_def truthy_def example_user_def)

lemma example_call:
  "example_refresh_api () (or_else (refresh_token example_user) [])
      = (JsonObj \<lparr>td_token_type = Some ''Bearer'', td_access_token = Some ''at2'',
               td_refresh_token = None\<rparr>, ())"
  by (simp add: example_refresh_api_def)

text \<open>The pass over the example store, running alone, step by step.\<close>

lemma example_pass:
  "refreshAllTokens example_refresh_api no_handler () example_state
   = (\<lparr>users = [(example_id_ann, example_user\<lparr>access_token := Some ''at2''\<rparr>)],
       users_file = [(example_id_ann, example_user\<lparr>access_token := Some ''at2''\<rparr>)],
       saves = [[(example_id_ann, example_user\<lparr>access_token := Some ''at2''\<rparr>)]]\<rparr>,
      (), [RefreshStart, DeleteNoToken example_id_bob, RefreshComplete 1 1])"
proof -
  let ?s0 = "\<lparr>rl_state = example_state\<lparr>users := users_file example_state\<rparr>,
              rl_refreshed = 0, rl_deleted = 0, rl_world = (), rl_log = [RefreshStart]\<rparr>"
  let ?u1 = "[(example_id_ann, example_user\<lparr>access_token := Some ''at2''\<rparr>),
              (example_id_bob, example_user_no_refresh)]"
  let ?s1 = "\<lparr>rl_state = \<lparr>users = ?u1, users_file = example_store, saves = []\<rparr>,
              rl_refreshed = 1, rl_deleted = 0, rl_world = (), rl_log = [RefreshStart]\<rparr>"
  let ?s2 = "\<lparr>rl_state = \<lparr>users = [(example_id_ann, example_user\<lparr>access_token := Some ''at2''\<rparr>)],
                           users_file = example_store, saves = []\<rparr>,
              rl_refreshed = 1, rl_deleted = 1, rl_world = (),
              rl_log = [RefreshStart, DeleteNoToken example_id_bob]\<rparr>"
  have ne: "users_file example_state \<noteq> []"
    by (simp add: example_state_simps example_store_props)
  have e1: "refresh_entry example_refresh_api no_handler (example_id_ann, example_user) ?s0 = ?s1"
    by (simp add: refresh_entry_call[where api = example_refresh_api, OF example_truthy(1)]
        example_call example_rotate truthy_def resume_def no_handler_def example_state_def
        example_store_def)
  have e2: "refresh_entry example_refresh_api no_handler
              (example_id_bob, example_user_no_refresh) ?s1 = ?s2"
    by (simp add: refresh_entry_no_token[OF example_truthy(2)] evict_def example_keys_differ)
  have "refresh_entries example_refresh_api no_handler (users_file example_state) ?s0
      = refresh_entry example_refresh_api no_handler (example_id_bob, example_user_no_refresh)
          (refresh_entry example_refresh_api no_handler (example_id_ann, example_user) ?s0)"
    by (subst (1) example_state_simps(1), subst (1) example_store_def) simp
  then have l: "refresh_entries example_refresh_api no_handler (users_file example_state) ?s0 = ?s2"
    by (simp only: e1 e2)
  show ?thesis
    unfolding refreshAllTokens_nonempty[OF ne] l by simp
qed

text \<open>
  The pass over the racing store, with a handler that reloads the store during the one
  \<open>await\<close> of the pass: the record evicted before the call is back in \<open>users\<close> when the
  pass resumes, and is saved.
\<close>

lemma example_racing_pass:
  "refreshAllTokens example_refresh_api reload_handler () example_racing_state
   = (\<lparr>users = [(example_id_bob, example_user_no_refresh),
                 (example_id_ann, example_user\<lparr>access_token := Some ''at2''\<rparr>)],
       users_file = [(example_id_bob, example_user_no_refresh),
                      (example_id_ann, example_user\<lparr>access_token := Some ''at2''\<rparr>)],
       saves = [[(example_id_bob, example_user_no_refresh),
                  (example_id_ann, example_user\<lparr>access_token := Some ''at2''\<rparr>)]]\<rparr>,
      (), [RefreshStart, DeleteNoToken example_id_bob, RefreshComplete 1 1])"
proof -
  let ?f = "[(example_id_bob, example_user_no_refresh), (example_id_ann, example_user)]"
  let ?s0 = "\<lparr>rl_state = example_racing_state\<lparr>users := users_file example_racing_state\<rparr>,
              rl_refreshed = 0, rl_deleted = 0, rl_world = (), rl_log = [RefreshStart]\<rparr>"
  let ?s1 = "\<lparr>rl_state = \<lparr>users = [(example_id_ann, example_user)], users_file = ?f, saves = []\<rparr>,
              rl_refreshed = 0, rl_deleted = 1, rl_world = (),
              rl_log = [RefreshStart, DeleteNoToken example_id_bob]\<rparr>"
  let ?s2 = "\<lparr>rl_state = \<lparr>users = [(example_id_bob, example_user_no_refresh),
                                   (example_id_ann, example_user\<lparr>access_token := Some ''at2''\<rparr>)],
                           users_file = ?f, saves = []\<rparr>,
              rl_refreshed = 1, rl_deleted = 1, rl_world = (),
              rl_log = [RefreshStart, DeleteNoToken example_id_bob]\<rparr>"
  have f: "users_file example_racing_state = ?f" by (simp add: example_racing_state_def)
  have ne: "users_file example_racing_state \<noteq> []" by (simp add: f)
  have e1: "refresh_entry example_refresh_api reload_handler
              (example_id_bob, example_user_no_refresh) ?s0 = ?s1"
    by (simp add: refresh_entry_no_token[OF example_truthy(2)] evict_def example_keys_differ
        example_racing_state_def)
  have e2: "refresh_entry example_refresh_api reload_handler (example_id_ann, example_user) ?s1
      = ?s2"
    by (simp add: refresh_entry_call[where api = example_refresh_api, OF example_truthy(1)]
        example_call example_rotate truthy_def resume_def reload_handler_def loadJson_def
        example_keys_differ)
  have "refresh_entries example_refresh_api reload_handler (users_file example_racing_state) ?s0
      = refresh_entry example_refresh_api reload_handler (example_id_ann, example_user)
          (refresh_entry example_refresh_api reload_handler
             (example_id_bob, example_user_no_refresh) ?s0)"
    by (subst (1) f) simp
  then have l: "refresh_entries example_refresh_api reload_handler
                  (users_file example_racing_state) ?s0 = ?s2"
    by (simp only: e1 e2)
  show ?thesis
    unfolding refreshAllTokens_nonempty[OF ne] l by simp
qed

text \<open>
  A timestamp field that \<open>Number\<close> reads as NaN never expires: the subtraction gives NaN
  and the comparison with \<open>BUTTON_TTL\<close> is false.
\<close>

lemma expired_NaN: "\<not> expired now NaN"
  by (simp add: expired_def)

lemma nan_timestamp_example:
  "token_createdAt example_nan_button = NaN"
  by (simp add: example_nan_button_def token_createdAt_def token_createdAtStr_def nth_opt_def StringToNumber_def
      trim_def js_ws_def non_decimal_literal_def str_unsigned_decimal_def is_digit_def
      exponent_part_def Let_def)

section \<open>The claims\<close>

subsection \<open>Expiry of a button\<close>

text \<open>
  Claim C1. A listing button whose issue time reads \<open>issuedAt\<close> is answered with the expiry
  message exactly when \<open>now - issuedAt > BUTTON_TTL\<close>, and \<open>BUTTON_TTL\<close> is two minutes
  (120000 ms), whoever presses it. One millisecond past the limit it is expired; one
  millisecond before the limit it is not.
\<close>

theorem ttl_expiry:
  assumes "is_userlist (token_prefix cid)"
    and "token_createdAt cid = Fin (of_int issuedAt)"
  shows "(fst (button_handler accepts cid redeemer now now2 st) = Expired)
           = (now - issuedAt > BUTTON_TTL)
       \<and> BUTTON_TTL = 120000
       \<and> fst (button_handler accepts cid redeemer (issuedAt + BUTTON_TTL + 1) now2 st) = Expired
       \<and> fst (button_handler accepts cid redeemer (issuedAt + BUTTON_TTL - 1) now2 st) \<noteq> Expired"
proof -
  have "(fst (button_handler accepts cid redeemer n now2 st) = Expired)
          = (n - issuedAt > BUTTON_TTL)" for n
    using assms
    by (simp add: button_handler_def Let_def expired_Fin split: option.splits sum.splits)
  then show ?thesis by (simp add: BUTTON_TTL_def)
qed

text \<open>The theorem at a concrete input.\<close>

theorem ttl_expiry_witness:
  "is_userlist (token_prefix example_button)
   \<and> token_createdAt example_button = Fin 1700000000000
   \<and> fst (button_handler discord_limits example_button example_invoker 1700000120001
             1700000120001 example_state) = Expired
   \<and> fst (button_handler discord_limits example_button example_invoker 1700000119999
             1700000119999 example_state) \<noteq> Expired"
proof -
  have h1: "is_userlist (token_prefix example_button)" by (rule example_button_fields)
  have h2: "token_createdAt example_button = Fin (of_int 1700000000000)"
    by (simp add: example_button_fields)
  have n1: "(1700000000000::int) + BUTTON_TTL + 1 = 1700000120001"
    and n2: "(1700000000000::int) + BUTTON_TTL - 1 = 1700000119999"
    by (simp_all add: BUTTON_TTL_def)
  have a: "fst (button_handler discord_limits example_button example_invoker
             (1700000000000 + BUTTON_TTL + 1) 1700000120001 example_state) = Expired"
    using ttl_expiry[OF h1 h2, of discord_limits example_invoker 0 1700000120001 example_state]
    by blast
  have b: "fst (button_handler discord_limits example_button example_invoker
             (1700000000000 + BUTTON_TTL - 1) 1700000119999 example_state) \<noteq> Expired"
    using ttl_expiry[OF h1 h2, of discord_limits example_invoker 0 1700000119999 example_state]
    by blast
  show ?thesis
    using h1 example_button_fields(2) a[unfolded n1] b[unfolded n2] by blast
qed

subsection \<open>The custom id read back\<close>

text \<open>
  Claim C2, as the code has it. The custom id built from an action prefix, a page, an
  invoker id and a timestamp is split back into the same four fields, provided the
  invoker id does not contain the separator \<open>:\<close>. Discord user ids are decimal numerals
  and never contain one. The page is the one \<open>parseInt\<close> reads; the handler then goes to
  page 1 when it is below 1. The custom ids of the two buttons of a page are built this
  way, from the page before and the page after, and every page \<open>buildUserlistPage\<close>
  returns carries them.
\<close>

theorem codec_roundtrip:
  assumes "action = ''userlist_prev'' \<or> action = ''userlist_next''"
    and "CHR '':'' \<notin> set actorId"
  shows "token_prefix (customId action targetPage actorId issuedAt) = Some action
       \<and> parseInt10 (token_pageStr (customId action targetPage actorId issuedAt)) = Some targetPage
       \<and> token_invokerId (customId action targetPage actorId issuedAt) = Some actorId
       \<and> token_createdAt (customId action targetPage actorId issuedAt) = Fin (of_int issuedAt)
       \<and> token_targetPage (customId action targetPage actorId issuedAt) = max 1 targetPage
       \<and> pv_prev_id (page_fields us p actorId issuedAt)
           = customId ''userlist_prev'' (pv_page (page_fields us p actorId issuedAt) - 1)
               actorId issuedAt
       \<and> pv_next_id (page_fields us p actorId issuedAt)
           = customId ''userlist_next'' (pv_page (page_fields us p actorId issuedAt) + 1)
               actorId issuedAt
       \<and> (\<forall>pv. buildUserlistPage accepts us p actorId issuedAt = Inr pv \<longrightarrow>
             pv_prev_id pv = customId ''userlist_prev'' (pv_page pv - 1) actorId issuedAt
             \<and> pv_next_id pv = customId ''userlist_next'' (pv_page pv + 1) actorId issuedAt)"
proof -
  have a: "CHR '':'' \<notin> set action" using assms(1) by auto
  have 1: "token_prefix (customId action targetPage actorId issuedAt) = Some action
       \<and> parseInt10 (token_pageStr (customId action targetPage actorId issuedAt)) = Some targetPage
       \<and> token_invokerId (customId action targetPage actorId issuedAt) = Some actorId
       \<and> token_createdAt (customId action targetPage actorId issuedAt) = Fin (of_int issuedAt)
       \<and> token_targetPage (customId action targetPage actorId issuedAt) = max 1 targetPage"
    by (simp add: customId_fields[OF a assms(2)] token_createdAt_def parseInt10_show_int
        StringToNumber_show_int show_int_nonempty token_targetPage_def)
  have 2: "\<forall>pv. buildUserlistPage accepts us p actorId issuedAt = Inr pv \<longrightarrow>
             pv_prev_id pv = customId ''userlist_prev'' (pv_page pv - 1) actorId issuedAt
             \<and> pv_next_id pv = customId ''userlist_next'' (pv_page pv + 1) actorId issuedAt"
    by (simp add: build_Inr build_prev_id build_next_id)
  show ?thesis using 1 2 build_prev_id build_next_id by blast
qed

text \<open>The theorem at a concrete input.\<close>

theorem codec_roundtrip_witness:
  "CHR '':'' \<notin> set example_invoker
   \<and> token_prefix (customId ''userlist_next'' 2 example_invoker 1700000000000)
       = Some ''userlist_next''
   \<and> parseInt10 (token_pageStr (customId ''userlist_next'' 2 example_invoker 1700000000000))
       = Some 2
   \<and> token_invokerId (customId ''userlist_next'' 2 example_invoker 1700000000000)
       = Some example_invoker
   \<and> token_createdAt (customId ''userlist_next'' 2 example_invoker 1700000000000)
       = Fin 1700000000000
   \<and> buildUserlistPage discord_limits example_store 1 example_invoker 1700000000000
       = Inr (page_fields example_store 1 example_invoker 1700000000000)
   \<and> pv_next_id (page_fields example_store 1 example_invoker 1700000000000)
       = customId ''userlist_next'' 2 example_invoker 1700000000000"
proof -
  note t = codec_roundtrip[where action = "''userlist_next''" and actorId = example_invoker
      and accepts = discord_limits and targetPage = 2 and issuedAt = 1700000000000
      and us = example_store and p = 1]
  have b: "buildUserlistPage discord_limits example_store 1 example_invoker 1700000000000
       = Inr (page_fields example_store 1 example_invoker 1700000000000)"
    by (rule example_render)
  have pg: "pv_page (page_fields example_store 1 example_invoker 1700000000000) + 1 = 2"
    by (simp add: build_page example_store_props page_count_div clamp_page_def)
  have a: "''userlist_next'' = ''userlist_prev'' \<or> ''userlist_next'' = ''userlist_next''"
    by simp
  note t1 = t[OF a example_invoker_no_colon]
  have n: "pv_next_id (page_fields example_store 1 example_invoker 1700000000000)
       = customId ''userlist_next''
           (pv_page (page_fields example_store 1 example_invoker 1700000000000) + 1)
           example_invoker 1700000000000"
    using t1 by blast
  have f: "token_prefix (customId ''userlist_next'' 2 example_invoker 1700000000000)
       = Some ''userlist_next''
   \<and> parseInt10 (token_pageStr (customId ''userlist_next'' 2 example_invoker 1700000000000))
       = Some 2
   \<and> token_invokerId (customId ''userlist_next'' 2 example_invoker 1700000000000)
       = Some example_invoker
   \<and> token_createdAt (customId ''userlist_next'' 2 example_invoker 1700000000000)
       = Fin (of_int 1700000000000)"
    using t1 by blast
  show ?thesis using f example_invoker_no_colon b n[unfolded pg] by simp
qed

text \<open>With a separator inside the invoker id the fields read back are different ones.\<close>

theorem codec_roundtrip_counterexample:
  "token_invokerId (customId ''userlist_next'' 2 ''a:b'' 1700000000000) = Some ''a''
   \<and> token_invokerId (customId ''userlist_next'' 2 ''a:b'' 1700000000000) \<noteq> Some ''a:b''
   \<and> token_createdAt (customId ''userlist_next'' 2 ''a:b'' 1700000000000) = NaN
   \<and> token_createdAt (customId ''userlist_next'' 2 ''a:b'' 1700000000000) \<noteq> Fin 1700000000000"
  by (simp add: token_invokerId_def token_createdAt_def token_createdAtStr_def nth_opt_def
      customId_colon_split StringToNumber_b)

subsection \<open>Buttons belong to their invoker\<close>

text \<open>
  Claim C3. A listing button that has not expired, pressed by anyone but the user whose id
  it carries, is answered with the refusal. No page is built, and the state is left as it
  was. This holds at every time \<open>now\<close> at which the button has not expired.
\<close>

theorem forbidden_other_redeemer:
  assumes "is_userlist (token_prefix cid)"
    and "\<not> expired now (token_createdAt cid)"
    and "token_invokerId cid \<noteq> Some redeemer"
  shows "button_handler accepts cid redeemer now now2 st = (Forbidden, st)"
  using assms by (auto simp: button_handler_def Let_def split: option.splits)

text \<open>The theorem at a concrete input.\<close>

theorem forbidden_other_redeemer_witness:
  "is_userlist (token_prefix example_button)
   \<and> \<not> expired 1700000001000 (token_createdAt example_button)
   \<and> token_invokerId example_button \<noteq> Some example_other
   \<and> button_handler discord_limits example_button example_other 1700000001000 1700000001000
         example_state
       = (Forbidden, example_state)"
proof -
  have h1: "is_userlist (token_prefix example_button)" by (rule example_button_fields)
  have h2: "\<not> expired 1700000001000 (token_createdAt example_button)"
    by (simp add: example_button_fields not_expired_example)
  have h3: "token_invokerId example_button \<noteq> Some example_other"
    by (simp add: example_button_fields example_ids_differ)
  show ?thesis
    using h1 h2 h3
      forbidden_other_redeemer[OF h1 h2 h3, of discord_limits 1700000001000 example_state]
    by blast
qed

subsection \<open>Page count and clamping\<close>



subsection \<open>Counts of a refresher pass\<close>

text \<open>
  Claim C5, as the code has it. For a store that is not empty, the pass ends by reporting
  the counts \<open>refreshed\<close> and \<open>deleted\<close>, and their sum is the number of records the pass
  started with, whatever the other handlers do while it waits. For the empty store the
  pass returns before the counters exist and reports no counts.
\<close>

theorem refresh_counts:
  "(users_file st \<noteq> [] \<longrightarrow>
      (\<exists>r d. reported_counts (snd (snd (refreshAllTokens api others w st))) = Some (r, d)
             \<and> r + d = length (users_file st)))
   \<and> (users_file st = [] \<longrightarrow>
      reported_counts (snd (snd (refreshAllTokens api others w st))) = None)"
proof (intro conjI impI)
  assume ne: "users_file st \<noteq> []"
  let ?l = "refresh_entries api others (users_file st)
              \<lparr>rl_state = st\<lparr>users := users_file st\<rparr>, rl_refreshed = 0, rl_deleted = 0,
               rl_world = w, rl_log = [RefreshStart]\<rparr>"
  have "reported_counts (snd (snd (refreshAllTokens api others w st)))
          = Some (rl_refreshed ?l, rl_deleted ?l)"
    by (simp add: refreshAllTokens_nonempty[OF ne] reported_counts_def)
  moreover have "rl_refreshed ?l + rl_deleted ?l = length (users_file st)"
    by (simp add: refresh_entries_counts)
  ultimately show "\<exists>r d. reported_counts (snd (snd (refreshAllTokens api others w st))) = Some (r, d)
             \<and> r + d = length (users_file st)" by blast
next
  assume "users_file st = []"
  then show "reported_counts (snd (snd (refreshAllTokens api others w st))) = None"
    by (simp add: refreshAllTokens_empty reported_counts_def)
qed

text \<open>The theorem at a concrete input.\<close>

theorem refresh_counts_witness:
  "users_file example_state \<noteq> []
   \<and> reported_counts (snd (snd (refreshAllTokens example_refresh_api no_handler ()
                                    example_state)))
       = Some (1, 1)
   \<and> (1::nat) + 1 = length (users_file example_state)"
proof -
  have ne: "users_file example_state \<noteq> []"
    by (simp add: example_state_simps example_store_props)
  have v: "reported_counts (snd (snd (refreshAllTokens example_refresh_api no_handler ()
                                        example_state)))
       = Some (1, 1)"
    by (simp add: example_pass reported_counts_def)
  obtain r d where
    "reported_counts (snd (snd (refreshAllTokens example_refresh_api no_handler ()
                                  example_state)))
       = Some (r, d)" and sum: "r + d = length (users_file example_state)"
    using refresh_counts[of example_state example_refresh_api no_handler "()"] ne by blast
  then have "r = 1" "d = 1" using v by simp_all
  then show ?thesis using ne v sum by simp
qed

text \<open>The pass over the empty store reports no counts.\<close>

theorem refresh_counts_counterexample:
  "reported_counts (snd (snd (refreshAllTokens example_refresh_api no_handler ()
                                empty_state))) = None"
  by (simp add: refreshAllTokens_empty example_state_simps reported_counts_def)

subsection \<open>Refresh tokens after a pass\<close>

text \<open>
  Claim C6, as the code has it. The pass works on the module variable \<open>users\<close> and saves
  what that variable holds at the end. When no handler that runs while the pass waits
  touches \<open>users\<close>, every record of the store on disk after the pass, which is the store
  the pass saved, has a refresh token; a record that entered the pass without one is gone
  from the store; and when the keys of the store are distinct, as the keys of a JavaScript
  object are, the store left by the pass is that of \<open>spec_pass\<close>: the records refreshed
  with success, in order, each with its new access token, and with its old refresh token
  unless the response brought a new one.
\<close>

theorem refresh_durable:
  assumes "\<forall>w s. users (others w s) = users s"
  shows "(\<forall>p \<in> set (users_file (fst (refreshAllTokens api others w st))).
            truthy (refresh_token (snd p)))
   \<and> (users_file st \<noteq> [] \<longrightarrow>
         saves (fst (refreshAllTokens api others w st)) \<noteq> []
         \<and> last (saves (fst (refreshAllTokens api others w st)))
              = users_file (fst (refreshAllTokens api others w st)))
   \<and> (\<forall>p \<in> set (users_file st). \<not> truthy (refresh_token (snd p)) \<longrightarrow>
         fst p \<notin> fst ` set (users_file (fst (refreshAllTokens api others w st))))
   \<and> (distinct (map fst (users_file st)) \<longrightarrow>
         users_file (fst (refreshAllTokens api others w st)) = spec_pass api w (users_file st))
   \<and> (\<forall>u td u1. spec_refresh_record u (JsonObj td) = Some u1 \<longrightarrow>
         refresh_token u1 = (if truthy (td_refresh_token td) then td_refresh_token td
                             else refresh_token u))"
proof -
  have q: "\<And>w s. users (others w s) = users s" using assms by blast
  let ?st = "fst (refreshAllTokens api others w st)"
  have e: "\<forall>u td u1. spec_refresh_record u (JsonObj td) = Some u1 \<longrightarrow>
         refresh_token u1 = (if truthy (td_refresh_token td) then td_refresh_token td
                             else refresh_token u)"
  proof (intro allI impI)
    fix u td u1 assume h: "spec_refresh_record u (JsonObj td) = Some u1"
    show "refresh_token u1 = (if truthy (td_refresh_token td) then td_refresh_token td
                             else refresh_token u)"
    proof (cases "truthy (td_access_token td)")
      case True
      then have "u1 = u\<lparr>access_token := td_access_token td,
                       refresh_token := (if truthy (td_refresh_token td)
                                         then td_refresh_token td else refresh_token u)\<rparr>"
        using h by (simp add: spec_refresh_record_def)
      then show ?thesis by simp
    next
      case False
      then show ?thesis using h by (simp add: spec_refresh_record_def)
    qed
  qed
  have abcd: "(\<forall>p \<in> set (users_file ?st). truthy (refresh_token (snd p)))
   \<and> (users_file st \<noteq> [] \<longrightarrow> saves ?st \<noteq> [] \<and> last (saves ?st) = users_file ?st)
   \<and> (\<forall>p \<in> set (users_file st). \<not> truthy (refresh_token (snd p)) \<longrightarrow>
         fst p \<notin> fst ` set (users_file ?st))
   \<and> (distinct (map fst (users_file st)) \<longrightarrow>
         users_file ?st = spec_pass api w (users_file st))"
  proof (cases "users_file st = []")
    case True
    have "users_file ?st = []"
      by (simp add: refreshAllTokens_empty[OF True] True)
    then show ?thesis by (simp add: True)
  next
    case False
    let ?init = "\<lparr>rl_state = st\<lparr>users := users_file st\<rparr>, rl_refreshed = 0, rl_deleted = 0,
               rl_world = w, rl_log = [RefreshStart]\<rparr>"
    let ?l = "refresh_entries api others (users_file st) ?init"
    have uf: "users_file ?st = users (rl_state ?l)"
      and sv: "saves ?st = saves (rl_state ?l) @ [users (rl_state ?l)]"
      by (simp_all add: refreshAllTokens_nonempty[OF False])
    have a: "\<forall>p \<in> set (users (rl_state ?l)). truthy (refresh_token (snd p))"
      by (rule refresh_entries_inv[where others = others, OF q]) simp
    have b: "saves ?st \<noteq> [] \<and> last (saves ?st) = users (rl_state ?l)"
      by (simp add: sv)
    have c: "\<forall>p \<in> set (users_file st). \<not> truthy (refresh_token (snd p)) \<longrightarrow>
           fst p \<notin> fst ` set (users (rl_state ?l))"
    proof (intro ballI impI)
      fix p assume p: "p \<in> set (users_file st)" and n: "\<not> truthy (refresh_token (snd p))"
      have "(fst p, snd p) \<in> set (users_file st)" using p by simp
      from refresh_entries_evicts[where others = others, OF q this n]
      show "fst p \<notin> fst ` set (users (rl_state ?l))" .
    qed
    have d: "distinct (map fst (users_file st)) \<longrightarrow>
        users (rl_state ?l) = spec_pass api w (users_file st)"
      using quiet_pass_store[where others = others and api = api and w = w, OF q False]
      by (simp add: uf[symmetric])
    show ?thesis unfolding uf using a b c d by (intro conjI) blast+
  qed
  show ?thesis using abcd e by (intro conjI) blast+
qed

text \<open>The theorem at a concrete input.\<close>

theorem refresh_durable_witness:
  "(\<forall>w s. users (no_handler (w::unit) s) = users s)
   \<and> distinct (map fst (users_file example_state))
   \<and> users_file example_state \<noteq> []
   \<and> (example_id_bob, example_user_no_refresh) \<in> set (users_file example_state)
   \<and> \<not> truthy (refresh_token example_user_no_refresh)
   \<and> example_id_bob \<notin> fst ` set (users_file (fst (refreshAllTokens example_refresh_api
                                                      no_handler () example_state)))
   \<and> users_file (fst (refreshAllTokens example_refresh_api no_handler () example_state))
        = [(example_id_ann, example_user\<lparr>access_token := Some ''at2''\<rparr>)]
   \<and> last (saves (fst (refreshAllTokens example_refresh_api no_handler () example_state)))
        = [(example_id_ann, example_user\<lparr>access_token := Some ''at2''\<rparr>)]
   \<and> truthy (refresh_token (example_user\<lparr>access_token := Some ''at2''\<rparr>))"
proof -
  have q: "\<forall>w s. users (no_handler (w::unit) s) = users s" by (simp add: no_handler_def)
  note t = refresh_durable[where others = no_handler and api = example_refresh_api
      and w = "()" and st = example_state, OF q]
  have d: "distinct (map fst (users_file example_state))"
    and ne: "users_file example_state \<noteq> []"
    by (simp_all add: example_state_simps example_store_props)
  have m: "(example_id_bob, example_user_no_refresh) \<in> set (users_file example_state)"
    by (simp add: example_state_simps example_store_def)
  have "users_file (fst (refreshAllTokens example_refresh_api no_handler () example_state))
        = spec_pass example_refresh_api () (users_file example_state)"
    using t d by blast
  then have eq: "users_file (fst (refreshAllTokens example_refresh_api no_handler ()
                                    example_state))
        = [(example_id_ann, example_user\<lparr>access_token := Some ''at2''\<rparr>)]"
    by (simp add: example_state_simps example_spec_pass)
  have "last (saves (fst (refreshAllTokens example_refresh_api no_handler () example_state)))
        = users_file (fst (refreshAllTokens example_refresh_api no_handler () example_state))"
    using t ne by blast
  then have sv: "last (saves (fst (refreshAllTokens example_refresh_api no_handler ()
                                     example_state)))
        = [(example_id_ann, example_user\<lparr>access_token := Some ''at2''\<rparr>)]"
    by (simp only: eq)
  have n: "example_id_bob \<notin> fst ` set (users_file (fst (refreshAllTokens example_refresh_api
                                                      no_handler () example_state)))"
  proof -
    have "\<forall>p \<in> set (users_file example_state). \<not> truthy (refresh_token (snd p)) \<longrightarrow>
         fst p \<notin> fst ` set (users_file (fst (refreshAllTokens example_refresh_api
                                                no_handler () example_state)))"
      using t by blast
    from bspec[OF this m] show ?thesis using example_truthy(2) by simp
  qed
  have "\<forall>p \<in> set (users_file (fst (refreshAllTokens example_refresh_api no_handler ()
                                      example_state))).
          truthy (refresh_token (snd p))"
    using t by blast
  then have tr: "truthy (refresh_token (example_user\<lparr>access_token := Some ''at2''\<rparr>))"
    unfolding eq by simp
  show ?thesis using q d ne m example_truthy(2) n eq sv tr by blast
qed

text \<open>
  A handler that reloads the store while the pass waits for its refresh call brings back
  the record evicted before: the pass saves a record that has no refresh token.
\<close>

theorem refresh_durable_counterexample:
  "(example_id_bob, example_user_no_refresh)
     \<in> set (users_file (fst (refreshAllTokens example_refresh_api reload_handler ()
                               example_racing_state)))
   \<and> \<not> truthy (refresh_token example_user_no_refresh)"
  by (simp add: example_racing_pass example_truthy)

subsection \<open>Saving the store\<close>

text \<open>
  Claim C7, as the code has it. For a store that is not empty the pass ends with its one
  call of \<open>saveJson\<close>, on the module variable \<open>users\<close> as it is then: the last save is that
  of the pass, and when the other handlers save nothing meanwhile it is the only one.
  When no handler touches \<open>users\<close> while the pass waits, the store saved is the one the
  loop has left, with every eviction and every rotation of the pass in it. For the empty
  store the pass returns at once and saves nothing.
\<close>

theorem refresh_saves_once:
  "(users_file st \<noteq> [] \<longrightarrow>
      saves (fst (refreshAllTokens api others w st)) \<noteq> []
      \<and> last (saves (fst (refreshAllTokens api others w st)))
           = users_file (fst (refreshAllTokens api others w st))
      \<and> users (fst (refreshAllTokens api others w st))
           = users_file (fst (refreshAllTokens api others w st))
      \<and> ((\<forall>w s. saves (others w s) = saves s) \<longrightarrow>
            saves (fst (refreshAllTokens api others w st))
              = saves st @ [users_file (fst (refreshAllTokens api others w st))])
      \<and> ((\<forall>w s. users (others w s) = users s) \<and> distinct (map fst (users_file st)) \<longrightarrow>
            users_file (fst (refreshAllTokens api others w st)) = spec_pass api w (users_file st)))
   \<and> (users_file st = [] \<longrightarrow>
      saves (fst (refreshAllTokens api others w st)) = saves st
      \<and> users_file (fst (refreshAllTokens api others w st)) = [])"
proof (intro conjI impI)
  assume ne: "users_file st \<noteq> []"
  show "saves (fst (refreshAllTokens api others w st)) \<noteq> []"
    by (simp add: refreshAllTokens_nonempty[OF ne])
  show "last (saves (fst (refreshAllTokens api others w st)))
           = users_file (fst (refreshAllTokens api others w st))"
    by (simp add: refreshAllTokens_nonempty[OF ne])
  show "users (fst (refreshAllTokens api others w st))
           = users_file (fst (refreshAllTokens api others w st))"
    by (simp add: refreshAllTokens_nonempty[OF ne])
  {
    assume "\<forall>w s. saves (others w s) = saves s"
    then have s: "\<And>w s. saves (others w s) = saves s" by blast
    show "saves (fst (refreshAllTokens api others w st))
              = saves st @ [users_file (fst (refreshAllTokens api others w st))]"
      by (simp add: refreshAllTokens_nonempty[OF ne]
          refresh_entries_saves[where others = others, OF s])
  }
  {
    assume "(\<forall>w s. users (others w s) = users s) \<and> distinct (map fst (users_file st))"
    then have q: "\<And>w s. users (others w s) = users s"
      and d: "distinct (map fst (users_file st))" by blast+
    show "users_file (fst (refreshAllTokens api others w st)) = spec_pass api w (users_file st)"
      by (rule quiet_pass_store[where others = others, OF q ne d])
  }
next
  assume e: "users_file st = []"
  show "saves (fst (refreshAllTokens api others w st)) = saves st"
    by (simp add: refreshAllTokens_empty[OF e])
  show "users_file (fst (refreshAllTokens api others w st)) = []"
    by (simp add: refreshAllTokens_empty[OF e] e)
qed

text \<open>The theorem at a concrete input.\<close>

theorem refresh_saves_once_witness:
  "users_file example_state \<noteq> [] \<and> distinct (map fst (users_file example_state))
   \<and> (\<forall>w s. saves (no_handler (w::unit) s) = saves s)
   \<and> (\<forall>w s. users (no_handler (w::unit) s) = users s)
   \<and> saves (fst (refreshAllTokens example_refresh_api no_handler () example_state))
        = [[(example_id_ann, example_user\<lparr>access_token := Some ''at2''\<rparr>)]]
   \<and> users_file empty_state = []
   \<and> saves (fst (refreshAllTokens example_refresh_api no_handler () empty_state)) = []"
proof -
  note t = refresh_saves_once[of example_state example_refresh_api no_handler "()"]
  note t0 = refresh_saves_once[of empty_state example_refresh_api no_handler "()"]
  have ne: "users_file example_state \<noteq> []"
    and d: "distinct (map fst (users_file example_state))"
    by (simp_all add: example_state_simps example_store_props)
  have q: "\<forall>w s. users (no_handler (w::unit) s) = users s"
    and qs: "\<forall>w s. saves (no_handler (w::unit) s) = saves s"
    by (simp_all add: no_handler_def)
  have "users_file (fst (refreshAllTokens example_refresh_api no_handler () example_state))
        = spec_pass example_refresh_api () (users_file example_state)"
    using t ne d q by blast
  then have eq: "users_file (fst (refreshAllTokens example_refresh_api no_handler ()
                                    example_state))
        = [(example_id_ann, example_user\<lparr>access_token := Some ''at2''\<rparr>)]"
    by (simp add: example_state_simps example_spec_pass)
  have "saves (fst (refreshAllTokens example_refresh_api no_handler () example_state))
        = saves example_state
            @ [users_file (fst (refreshAllTokens example_refresh_api no_handler ()
                                  example_state))]"
    using t ne qs by blast
  then have s: "saves (fst (refreshAllTokens example_refresh_api no_handler () example_state))
        = [[(example_id_ann, example_user\<lparr>access_token := Some ''at2''\<rparr>)]]"
    by (simp add: eq example_state_simps)
  have e0: "users_file empty_state = []" by (simp add: example_state_simps)
  have "saves (fst (refreshAllTokens example_refresh_api no_handler () empty_state))
        = saves empty_state"
    using t0 e0 by blast
  then have s0: "saves (fst (refreshAllTokens example_refresh_api no_handler () empty_state)) = []"
    by (simp add: example_state_simps)
  show ?thesis using ne d q qs s e0 s0 by blast
qed

text \<open>
  The pass over the empty store does not save. The pass over the racing store, with a
  handler that reloads the store while it waits, reports one deletion and saves a store
  that still holds the record deleted: not the store of the evictions and rotations made.
\<close>

theorem refresh_saves_once_counterexample:
  "saves (fst (refreshAllTokens example_refresh_api no_handler () empty_state)) = []
   \<and> last (saves (fst (refreshAllTokens example_refresh_api reload_handler ()
                         example_racing_state)))
       = [(example_id_bob, example_user_no_refresh),
          (example_id_ann, example_user\<lparr>access_token := Some ''at2''\<rparr>)]
   \<and> spec_pass example_refresh_api () (users_file example_racing_state)
       = [(example_id_ann, example_user\<lparr>access_token := Some ''at2''\<rparr>)]
   \<and> snd (snd (refreshAllTokens example_refresh_api reload_handler () example_racing_state))
       = [RefreshStart, DeleteNoToken example_id_bob, RefreshComplete 1 1]"
proof -
  have a: "saves (fst (refreshAllTokens example_refresh_api no_handler () empty_state)) = []"
    by (simp add: refreshAllTokens_empty example_state_simps)
  have f: "users_file example_racing_state
      = [(example_id_bob, example_user_no_refresh), (example_id_ann, example_user)]"
    by (simp add: example_racing_state_def)
  have b: "spec_pass example_refresh_api () (users_file example_racing_state)
       = [(example_id_ann, example_user\<lparr>access_token := Some ''at2''\<rparr>)]"
    unfolding f by (rule example_racing_spec_pass)
  show ?thesis using a b by (simp add: example_racing_pass)
qed

subsection \<open>Batches and delays\<close>



subsection \<open>Failures of the callback\<close>

text \<open>
  Claim C9, as the code has it. Without a code the callback answers 400 and leaves state
  and world untouched. With a code, when the token exchange throws, or answers null, or
  answers without an access token, the callback answers 500, a server error, and the
  process state, the store with it, is unchanged.
\<close>

theorem callback_failures:
  "(\<not> truthy code \<longrightarrow>
      callback exchange me code xff remote isoNow w st
        = (\<lparr>status = 400, body = MissingCode\<rparr>, st, w))
   \<and> (truthy code
        \<and> (fst (exchange w (or_else code [])) = FetchThrew
            \<or> fst (exchange w (or_else code [])) = JsonNull
            \<or> (\<exists>td. fst (exchange w (or_else code [])) = JsonObj td
                     \<and> \<not> truthy (td_access_token td))) \<longrightarrow>
      status (fst (callback exchange me code xff remote isoNow w st)) = 500
      \<and> fst (snd (callback exchange me code xff remote isoNow w st)) = st)"
proof (intro conjI impI)
  assume "\<not> truthy code"
  then show "callback exchange me code xff remote isoNow w st
        = (\<lparr>status = 400, body = MissingCode\<rparr>, st, w)"
    by (simp add: callback_def)
next
  assume h: "truthy code
        \<and> (fst (exchange w (or_else code [])) = FetchThrew
            \<or> fst (exchange w (or_else code [])) = JsonNull
            \<or> (\<exists>td. fst (exchange w (or_else code [])) = JsonObj td
                     \<and> \<not> truthy (td_access_token td)))"
  obtain resp w1 where r: "exchange w (or_else code []) = (resp, w1)"
    by (cases "exchange w (or_else code [])")
  have "resp = FetchThrew \<or> resp = JsonNull \<or> (\<exists>td. resp = JsonObj td \<and> \<not> truthy (td_access_token td))"
    using h r by simp
  then have "status (fst (callback exchange me code xff remote isoNow w st)) = 500
      \<and> fst (snd (callback exchange me code xff remote isoNow w st)) = st"
    using h r by (auto simp: callback_def)
  then show "status (fst (callback exchange me code xff remote isoNow w st)) = 500"
    and "fst (snd (callback exchange me code xff remote isoNow w st)) = st" by simp_all
qed

text \<open>The theorem at a concrete input.\<close>

theorem callback_failures_witness:
  "\<not> truthy None
   \<and> callback example_exchange_rejects example_me None None None ''2025-01-01'' () example_state
       = (\<lparr>status = 400, body = MissingCode\<rparr>, example_state, ())
   \<and> truthy (Some ''bad'')
   \<and> status (fst (callback example_exchange_rejects example_me (Some ''bad'') None None
                    ''2025-01-01'' () example_state)) = 500
   \<and> fst (snd (callback example_exchange_rejects example_me (Some ''bad'') None None
                    ''2025-01-01'' () example_state)) = example_state"
proof -
  note t0 = callback_failures[of None example_exchange_rejects example_me None None
      "''2025-01-01''" "()" example_state]
  note t1 = callback_failures[of "Some ''bad''" example_exchange_rejects example_me None None
      "''2025-01-01''" "()" example_state]
  have n: "\<not> truthy None" and s: "truthy (Some ''bad'')" by (simp_all add: truthy_def)
  have f: "\<exists>td. fst (example_exchange_rejects () (or_else (Some ''bad'') [])) = JsonObj td
               \<and> \<not> truthy (td_access_token td)"
    by (simp add: example_exchange_rejects_def truthy_def)
  show ?thesis using t0 t1 n s f by blast
qed

text \<open>A rejected authorization code is answered with status 500, not with a 4xx status.\<close>

theorem callback_failures_counterexample:
  "status (fst (callback example_exchange_rejects example_me (Some ''bad'') None None
                  ''2025-01-01'' () example_state)) = 500"
  by (simp add: callback_def example_exchange_rejects_def truthy_def or_else_def)

subsection \<open>Malformed custom ids\<close>

text \<open>
  Claim C10, as the code has it. A custom id whose prefix does not start with \<open>userlist\<close>
  is ignored. A listing button without a timestamp field, or with an empty one, counts as
  issued at time 0 and gets the expiry message as soon as \<open>now\<close> exceeds \<open>BUTTON_TTL\<close>.
  Both leave the state as it was. A page field that is missing, or that \<open>parseInt\<close> does
  not read as a number of at least 1, is not refused: for the invoker, within the time
  limit, page 1 is rendered, and shown when the builders take its content; when a builder
  throws, the answer is the error reply of the handler. No outcome writes the store file.
\<close>

theorem malformed_token:
  "(\<not> is_userlist (token_prefix cid) \<longrightarrow>
      button_handler accepts cid redeemer now now2 st = (Ignored, st))
   \<and> (is_userlist (token_prefix cid)
        \<and> (token_createdAtStr cid = None \<or> token_createdAtStr cid = Some [])
        \<and> BUTTON_TTL < now \<longrightarrow>
      button_handler accepts cid redeemer now now2 st = (Expired, st))
   \<and> (is_userlist (token_prefix cid) \<and> \<not> expired now (token_createdAt cid)
        \<and> token_invokerId cid = Some redeemer
        \<and> (parseInt10 (token_pageStr cid) = None
            \<or> (\<exists>p. parseInt10 (token_pageStr cid) = Some p \<and> p < 1)) \<longrightarrow>
      (accepts (page_fields (users_file st) 1 redeemer now2) \<longrightarrow>
         button_handler accepts cid redeemer now now2 st
           = (PageView (page_fields (users_file st) 1 redeemer now2),
              st\<lparr>users := users_file st\<rparr>))
      \<and> (\<not> accepts (page_fields (users_file st) 1 redeemer now2) \<longrightarrow>
         button_handler accepts cid redeemer now now2 st
           = (ErrorReply, st\<lparr>users := users_file st\<rparr>)))
   \<and> users_file (snd (button_handler accepts cid redeemer now now2 st)) = users_file st
   \<and> saves (snd (button_handler accepts cid redeemer now now2 st)) = saves st"
proof -
  have z: "expired now (Fin 0) = (BUTTON_TTL < now)"
    using expired_Fin[of now 0] by simp
  have a: "\<not> is_userlist (token_prefix cid) \<longrightarrow>
      button_handler accepts cid redeemer now now2 st = (Ignored, st)"
    by (simp add: button_handler_def)
  have b: "is_userlist (token_prefix cid)
        \<and> (token_createdAtStr cid = None \<or> token_createdAtStr cid = Some [])
        \<and> BUTTON_TTL < now \<longrightarrow>
      button_handler accepts cid redeemer now now2 st = (Expired, st)"
  proof (intro impI, elim conjE)
    assume u: "is_userlist (token_prefix cid)" and t: "BUTTON_TTL < now"
      and m: "token_createdAtStr cid = None \<or> token_createdAtStr cid = Some []"
    have "token_createdAt cid = Fin 0" using m by (auto simp: token_createdAt_def)
    then show "button_handler accepts cid redeemer now now2 st = (Expired, st)"
      using u t by (simp add: button_handler_def z)
  qed
  have c: "is_userlist (token_prefix cid) \<and> \<not> expired now (token_createdAt cid)
        \<and> token_invokerId cid = Some redeemer
        \<and> (parseInt10 (token_pageStr cid) = None
            \<or> (\<exists>p. parseInt10 (token_pageStr cid) = Some p \<and> p < 1)) \<longrightarrow>
      (accepts (page_fields (users_file st) 1 redeemer now2) \<longrightarrow>
         button_handler accepts cid redeemer now now2 st
           = (PageView (page_fields (users_file st) 1 redeemer now2),
              st\<lparr>users := users_file st\<rparr>))
      \<and> (\<not> accepts (page_fields (users_file st) 1 redeemer now2) \<longrightarrow>
         button_handler accepts cid redeemer now now2 st
           = (ErrorReply, st\<lparr>users := users_file st\<rparr>))"
    by (auto simp: button_handler_def token_targetPage_def loadJson_def Let_def
        buildUserlistPage_def)
  have d: "users_file (snd (button_handler accepts cid redeemer now now2 st)) = users_file st
     \<and> saves (snd (button_handler accepts cid redeemer now now2 st)) = saves st"
    by (simp add: button_handler_def Let_def split: option.splits sum.splits)
  show ?thesis using a b c d by blast
qed

text \<open>The theorem at a concrete input.\<close>

theorem malformed_token_witness:
  "is_userlist (token_prefix example_badpage_button)
   \<and> \<not> expired 1700000001000 (token_createdAt example_badpage_button)
   \<and> token_invokerId example_badpage_button = Some example_invoker
   \<and> parseInt10 (token_pageStr example_badpage_button) = None
   \<and> discord_limits (page_fields example_store 1 example_invoker 1700000001001)
   \<and> button_handler discord_limits example_badpage_button example_invoker 1700000001000
         1700000001001 example_state
       = (PageView (page_fields example_store 1 example_invoker 1700000001001),
          example_state\<lparr>users := example_store\<rparr>)
   \<and> \<not> discord_limits (page_fields example_long_store 1 example_invoker 1700000001001)
   \<and> button_handler discord_limits example_badpage_button example_invoker 1700000001000
         1700000001001 example_long_state
       = (ErrorReply, example_long_state\<lparr>users := example_long_store\<rparr>)
   \<and> \<not> is_userlist (token_prefix example_foreign_button)
   \<and> button_handler discord_limits example_foreign_button example_invoker 1700000001000
         1700000001001 example_state
       = (Ignored, example_state)
   \<and> is_userlist (token_prefix example_short_button)
   \<and> token_createdAtStr example_short_button = None
   \<and> button_handler discord_limits example_short_button example_invoker 1700000000001
         1700000000001 example_state
       = (Expired, example_state)"
proof -
  have h1: "is_userlist (token_prefix example_badpage_button)"
    by (simp add: token_badpage_fields is_userlist_next)
  have h2: "\<not> expired 1700000001000 (token_createdAt example_badpage_button)"
    by (simp add: token_badpage_createdAt not_expired_example)
  have h3: "token_invokerId example_badpage_button = Some example_invoker"
    by (simp add: token_badpage_fields)
  have h4: "parseInt10 (token_pageStr example_badpage_button) = None"
    by (simp add: token_badpage_fields parseInt10_abc)
  have h5: "\<not> is_userlist (token_prefix example_foreign_button)" by (rule token_foreign_prefix)
  have h6: "is_userlist (token_prefix example_short_button)"
    by (simp add: token_short_fields is_userlist_next)
  have h7: "token_createdAtStr example_short_button = None"
    by (simp add: token_short_fields)
  have h8: "discord_limits (page_fields example_store 1 example_invoker 1700000001001)"
    by (rule short_lines_accepted[OF example_store_short])
  have h9: "\<not> discord_limits (page_fields example_long_store 1 example_invoker 1700000001001)"
    by (rule example_long_refused)
  have u: "users_file example_state = example_store"
    and ul: "users_file example_long_state = example_long_store"
    by (simp_all add: example_state_def example_long_state_def)
  have ttl: "BUTTON_TTL < 1700000000001" by (simp add: BUTTON_TTL_def)
  note t1 = malformed_token[of example_badpage_button discord_limits example_invoker
      1700000001000 1700000001001 example_state]
  note t2 = malformed_token[of example_badpage_button discord_limits example_invoker
      1700000001000 1700000001001 example_long_state]
  note t3 = malformed_token[of example_foreign_button discord_limits example_invoker
      1700000001000 1700000001001 example_state]
  note t4 = malformed_token[of example_short_button discord_limits example_invoker
      1700000000001 1700000000001 example_state]
  have r1: "button_handler discord_limits example_badpage_button example_invoker 1700000001000
         1700000001001 example_state
       = (PageView (page_fields example_store 1 example_invoker 1700000001001),
          example_state\<lparr>users := example_store\<rparr>)"
    using t1 h1 h2 h3 h4 h8 unfolding u by blast
  have r2: "button_handler discord_limits example_badpage_button example_invoker 1700000001000
         1700000001001 example_long_state
       = (ErrorReply, example_long_state\<lparr>users := example_long_store\<rparr>)"
    using t2 h1 h2 h3 h4 h9 unfolding ul by blast
  have r3: "button_handler discord_limits example_foreign_button example_invoker 1700000001000
         1700000001001 example_state
       = (Ignored, example_state)"
    using t3 h5 by blast
  have r4: "button_handler discord_limits example_short_button example_invoker 1700000000001
         1700000000001 example_state
       = (Expired, example_state)"
    using t4 h6 h7 ttl by blast
  show ?thesis using h1 h2 h3 h4 h5 h6 h7 h8 h9 r1 r2 r3 r4 by blast
qed

text \<open>A button whose page field is not a number yields a page for its invoker.\<close>

theorem malformed_token_counterexample:
  "fst (button_handler discord_limits example_badpage_button example_invoker 1700000001000
          1700000001001 example_state)
     = PageView (page_fields example_store 1 example_invoker 1700000001001)"
proof -
  have h8: "discord_limits (page_fields example_store 1 example_invoker 1700000001001)"
    by (rule short_lines_accepted[OF example_store_short])
  show ?thesis
    using h8
    by (simp add: button_handler_def Let_def token_badpage_fields token_badpage_createdAt
        is_userlist_next not_expired_example token_targetPage_def parseInt10_abc loadJson_def
        example_state_def buildUserlistPage_def)
qed

end
